theory Spec2Isabelle
  imports Main "HOL-Library.Word"
begin

section \<open>Session fork consumption (\<open>consumeFork\<close>)\<close>

text \<open>
  Shallow embedding of \<^verbatim>\<open>consumeFork\<close> from
  \<^verbatim>\<open>packages/pass/types/data/items.ts\<close> (second document of the file).

  A JavaScript string is a \<open>string\<close> (one \<open>char\<close> per code unit), a
  \<^verbatim>\<open>Uint8Array\<close> a list of bytes. A value that may be \<^verbatim>\<open>undefined\<close> or
  \<^verbatim>\<open>null\<close> is an \<open>option\<close>.
\<close>

type_synonym Uint8Array = "8 word list"

text \<open>
  Anything can be thrown in JavaScript. \<open>InvalidForkConsumeError msg\<close> is the error class the
  function itself raises; \<open>Thrown x\<close> is any other thrown value (a rejected promise of a
  collaborator), kept as it is.
\<close>

datatype 'x thrown = InvalidForkConsumeError string | Thrown 'x

datatype fork_mode = sso | secure

datatype fork_version = V1 | V2

text \<open>
  \<^verbatim>\<open>ConsumeForkPayload\<close>: the tagged union
  \<^verbatim>\<open>{ mode: 'sso'; localState: MaybeNull<string>; state; selector; key?: Uint8Array; version: 1 | 2 }
  | { mode: 'secure'; state; selector; keyPassword }\<close>.
\<close>

datatype ConsumeForkPayload =
    Sso (payload_localState: "string option") (payload_state: string) (payload_selector: string)
        (payload_key: "Uint8Array option") (payload_version: fork_version)
  | Secure (payload_state: string) (payload_selector: string) (payload_keyPassword: string)

fun payload_mode :: "ConsumeForkPayload \<Rightarrow> fork_mode" where
  "payload_mode (Sso localState st sel k v) = sso"
| "payload_mode (Secure st sel kp) = secure"

text \<open>
  A request configuration as the helpers of \<^verbatim>\<open>@proton/shared\<close> build it. Only its
  \<^verbatim>\<open>url\<close> field is read and written by \<open>consumeFork\<close>; the other fields
  (method, headers, data) are whatever the helper put there.
\<close>

record 'c request =
  url :: string
  config :: 'c

record PullForkResponse =
  pull_UID :: string
  pull_RefreshToken :: string
  pull_LocalID :: int
  pull_Payload :: string

record RefreshSessionResponse =
  refresh_AccessToken :: string
  refresh_RefreshToken :: string

record User =
  User_ID :: string

text \<open>The decrypted fork blob; \<^verbatim>\<open>getForkDecryptedBlob\<close> may also resolve to \<^verbatim>\<open>undefined\<close>.\<close>

record ForkBlob =
  blob_keyPassword :: "string option"

record AuthSession =
  AccessToken :: string
  keyPassword :: string
  LocalID :: int
  RefreshToken :: string
  UID :: string
  UserID :: string

text \<open>
  The \<^verbatim>\<open>api\<close> function of the options. It is generic in its response type
  (\<^verbatim>\<open>api<PullForkResponse>\<close>, \<^verbatim>\<open>api<RefreshSessionResponse>\<close>,
  \<^verbatim>\<open>api<{ User: User }>\<close>); the model has one instance per response type the function
  uses. Every call runs in the world \<open>'w\<close> (server and network), may change it, and either
  resolves (\<open>Inr\<close>) or rejects (\<open>Inl\<close>).
\<close>

record ('c, 'w, 'x) Api =
  api_PullForkResponse :: "'c request \<Rightarrow> 'w \<Rightarrow> ('x thrown + PullForkResponse) \<times> 'w"
  api_RefreshSessionResponse :: "'c request \<Rightarrow> 'w \<Rightarrow> ('x thrown + RefreshSessionResponse) \<times> 'w"
  api_User :: "'c request \<Rightarrow> 'w \<Rightarrow> ('x thrown + User) \<times> 'w"

record ('c, 'w, 'x) ConsumeForkOptions =
  api :: "('c, 'w, 'x) Api"
  apiUrl :: "string option"
  payload :: ConsumeForkPayload

text \<open>
  The imported helpers, none of which is part of the source at hand; they are parameters of
  the model. \<open>refreshTokens rt\<close> is
  \<^verbatim>\<open>setRefreshCookies({ RefreshToken: rt })\<close>. \<open>getKey\<close> receives
  \<^verbatim>\<open>payload.key!\<close>: the non-null assertion is erased at run time, so the argument is
  whatever \<^verbatim>\<open>payload.key\<close> holds, \<^verbatim>\<open>undefined\<close> included.
\<close>

record ('c, 'k, 'w, 'x) helpers =
  pullForkSession :: "string \<Rightarrow> 'c request"
  refreshTokens :: "string \<Rightarrow> 'c request"
  getUser :: "'c request"
  withUIDHeaders :: "string \<Rightarrow> 'c request \<Rightarrow> 'c request"
  withAuthHeaders :: "string \<Rightarrow> string \<Rightarrow> 'c request \<Rightarrow> 'c request"
  getKey :: "Uint8Array option \<Rightarrow> 'w \<Rightarrow> ('x thrown + 'k) \<times> 'w"
  getForkDecryptedBlob :: "'k \<Rightarrow> string \<Rightarrow> fork_version \<Rightarrow> 'w \<Rightarrow> ('x thrown + ForkBlob option) \<times> 'w"

text \<open>
  The run state: the world the collaborators act on, and the calls issued so far, oldest
  first. The log is a ghost of the model: every call of a collaborator appends its event.
\<close>

datatype ('c, 'k) event =
    ApiCall "'c request"
  | GetKeyCall "Uint8Array option"
  | GetForkDecryptedBlobCall 'k string fork_version

record ('ev, 'w) run =
  world :: 'w
  calls :: "'ev list"

definition perform ::
  "'ev \<Rightarrow> ('w \<Rightarrow> 'r \<times> 'w) \<Rightarrow> ('ev, 'w) run \<Rightarrow> 'r \<times> ('ev, 'w) run" where
  "perform ev f s =
     (case f (world s) of (r, w') \<Rightarrow> (r, \<lparr>world = w', calls = calls s @ [ev]\<rparr>))"

fun is_ApiCall :: "('c, 'k) event \<Rightarrow> bool" where
  "is_ApiCall (ApiCall q) = True"
| "is_ApiCall (GetKeyCall k) = False"
| "is_ApiCall (GetForkDecryptedBlobCall k p v) = False"

text \<open>
  \<^verbatim>\<open>(payload.mode === 'secure' || (payload.localState !== null && payload.key)) &&
  payload.selector && payload.state\<close>: a string is truthy iff it is not empty, a
  \<^verbatim>\<open>Uint8Array\<close> iff it is there.
\<close>

definition validFork :: "ConsumeForkPayload \<Rightarrow> bool" where
  "validFork p \<longleftrightarrow>
     (payload_mode p = secure \<or> (payload_localState p \<noteq> None \<and> payload_key p \<noteq> None)) \<and>
     payload_selector p \<noteq> [] \<and> payload_state p \<noteq> []"

text \<open>
  \<^verbatim>\<open>pullForkParams.url = apiUrl ? `${apiUrl}/${pullForkParams.url}` : pullForkParams.url\<close>;
  an empty \<^verbatim>\<open>apiUrl\<close> is falsy.
\<close>

definition pullForkParams_of :: "('c, 'k, 'w, 'x) helpers \<Rightarrow> string option \<Rightarrow> string \<Rightarrow> 'c request" where
  "pullForkParams_of h apiUrl' sel =
     (let pullForkParams = pullForkSession h sel in
      pullForkParams\<lparr>url :=
        (case apiUrl' of
           None \<Rightarrow> url pullForkParams
         | Some u \<Rightarrow> if u \<noteq> [] then u @ ''/'' @ url pullForkParams else url pullForkParams)\<rparr>)"

text \<open>
  The \<^verbatim>\<open>keyPassword\<close> expression: the caller's value in secure mode, otherwise the
  immediately invoked async function whose \<^verbatim>\<open>try\<close> covers both \<^verbatim>\<open>getKey\<close> and
  \<^verbatim>\<open>getForkDecryptedBlob\<close> and whose \<^verbatim>\<open>catch (_)\<close> throws a fresh error.
  \<^verbatim>\<open>blob?.keyPassword ?? ''\<close> is the empty string when the blob or the field is missing.
\<close>

definition resolveKeyPassword ::
  "('c, 'k, 'w, 'x) helpers \<Rightarrow> ConsumeForkPayload \<Rightarrow> string \<Rightarrow> (('c, 'k) event, 'w) run
     \<Rightarrow> ('x thrown + string) \<times> (('c, 'k) event, 'w) run" where
  "resolveKeyPassword h p Payload s =
     (if payload_mode p = secure then (Inr (payload_keyPassword p), s)
      else
        case perform (GetKeyCall (payload_key p)) (getKey h (payload_key p)) s of
          (Inl _, s1) \<Rightarrow> (Inl (InvalidForkConsumeError ''Failed to decrypt fork payload''), s1)
        | (Inr k, s1) \<Rightarrow>
            (case perform (GetForkDecryptedBlobCall k Payload (payload_version p))
                    (getForkDecryptedBlob h k Payload (payload_version p)) s1 of
               (Inl _, s2) \<Rightarrow> (Inl (InvalidForkConsumeError ''Failed to decrypt fork payload''), s2)
             | (Inr blob, s2) \<Rightarrow>
                 (Inr (case blob of
                         None \<Rightarrow> []
                       | Some b \<Rightarrow> (case blob_keyPassword b of None \<Rightarrow> [] | Some kp \<Rightarrow> kp)),
                  s2)))"

definition consumeFork ::
  "('c, 'k, 'w, 'x) helpers \<Rightarrow> ('c, 'w, 'x) ConsumeForkOptions \<Rightarrow> (('c, 'k) event, 'w) run
     \<Rightarrow> ('x thrown + AuthSession) \<times> (('c, 'k) event, 'w) run" where
  "consumeFork h options s =
     (let p = payload options in
      if \<not> validFork p then (Inl (InvalidForkConsumeError ''Invalid fork state''), s)
      else
        let pullForkParams = pullForkParams_of h (apiUrl options) (payload_selector p) in
        case perform (ApiCall pullForkParams)
               (api_PullForkResponse (api options) pullForkParams) s of
          (Inl e, s1) \<Rightarrow> (Inl e, s1)
        | (Inr pull, s1) \<Rightarrow>
            let refreshParams =
                  withUIDHeaders h (pull_UID pull) (refreshTokens h (pull_RefreshToken pull)) in
            (case perform (ApiCall refreshParams)
                    (api_RefreshSessionResponse (api options) refreshParams) s1 of
               (Inl e, s2) \<Rightarrow> (Inl e, s2)
             | (Inr refresh, s2) \<Rightarrow>
                 let userParams =
                       withAuthHeaders h (pull_UID pull) (refresh_AccessToken refresh) (getUser h) in
                 (case perform (ApiCall userParams) (api_User (api options) userParams) s2 of
                    (Inl e, s3) \<Rightarrow> (Inl e, s3)
                  | (Inr user, s3) \<Rightarrow>
                      (case resolveKeyPassword h p (pull_Payload pull) s3 of
                         (Inl e, s4) \<Rightarrow> (Inl e, s4)
                       | (Inr kp, s4) \<Rightarrow>
                           (Inr \<lparr>AccessToken = refresh_AccessToken refresh,
                                 keyPassword = kp,
                                 LocalID = pull_LocalID pull,
                                 RefreshToken = refresh_RefreshToken refresh,
                                 UID = pull_UID pull,
                                 UserID = User_ID user\<rparr>, s4)))))"


section \<open>Encoding helpers\<close>

text \<open>
  Modelled from the spec: the helpers \<^verbatim>\<open>uint8ArrayToString\<close>, \<^verbatim>\<open>stringToUint8Array\<close>
  and \<^verbatim>\<open>encodeBase64URL\<close> of \<^verbatim>\<open>@proton/shared/lib/helpers/encoding\<close> are not in
  the source at hand. The spec has the fork state as 32 random bytes, URL-safe base64-encoded,
  with no padding and no unsafe characters. \<open>uint8ArrayToString\<close> makes of each byte the
  character with that code and \<open>stringToUint8Array\<close> goes back; \<open>encodeBase64URL\<close>
  encodes the codes of the characters of its argument in base64 with the URL-safe alphabet
  (\<open>-\<close> and \<open>_\<close> for \<open>+\<close> and \<open>/\<close>) and leaves the padding out.
\<close>

definition uint8ArrayToString :: "Uint8Array \<Rightarrow> string" where
  "uint8ArrayToString bs = map (\<lambda>b. char_of (unat b)) bs"

definition stringToUint8Array :: "string \<Rightarrow> Uint8Array" where
  "stringToUint8Array s = map (\<lambda>c. of_nat (of_char c)) s"

definition base64url_alphabet :: string where
  "base64url_alphabet = ''ABCDEFGHIJKLMNOPQRSTUVWXYZabcdefghijklmnopqrstuvwxyz0123456789-_''"

definition base64url_digit :: "nat \<Rightarrow> char" where
  "base64url_digit n = base64url_alphabet ! (n mod 64)"

fun base64url :: "nat list \<Rightarrow> string" where
  "base64url [] = []"
| "base64url [a] = [base64url_digit (a div 4), base64url_digit ((a mod 4) * 16)]"
| "base64url [a, b] =
     [base64url_digit (a div 4), base64url_digit ((a mod 4) * 16 + b div 16),
      base64url_digit ((b mod 16) * 4)]"
| "base64url (a # b # c # rest) =
     [base64url_digit (a div 4), base64url_digit ((a mod 4) * 16 + b div 16),
      base64url_digit ((b mod 16) * 4 + c div 64), base64url_digit (c mod 64)] @ base64url rest"

definition encodeBase64URL :: "string \<Rightarrow> string" where
  "encodeBase64URL s = base64url (map of_char s)"

text \<open>
  The decoder of the same format, to read an encoded state back: \<open>None\<close> on a character
  outside the alphabet or on a length no encoding has.
\<close>

definition base64url_value :: "char \<Rightarrow> nat option" where
  "base64url_value c =
     (if c \<in> set base64url_alphabet
      then Some (length (takeWhile (\<lambda>x. x \<noteq> c) base64url_alphabet)) else None)"

fun base64url_decode_values :: "nat list \<Rightarrow> nat list option" where
  "base64url_decode_values [] = Some []"
| "base64url_decode_values [p] = None"
| "base64url_decode_values [p, q] = Some [p * 4 + q div 16]"
| "base64url_decode_values [p, q, r] = Some [p * 4 + q div 16, (q mod 16) * 16 + r div 4]"
| "base64url_decode_values (p # q # r # t # rest) =
     (case base64url_decode_values rest of
        None \<Rightarrow> None
      | Some bs \<Rightarrow> Some ((p * 4 + q div 16) # ((q mod 16) * 16 + r div 4) # ((r mod 4) * 64 + t) # bs))"

fun those_values :: "nat option list \<Rightarrow> nat list option" where
  "those_values [] = Some []"
| "those_values (None # xs) = None"
| "those_values (Some v # xs) = (case those_values xs of None \<Rightarrow> None | Some vs \<Rightarrow> Some (v # vs))"

definition decodeBase64URL_bytes :: "string \<Rightarrow> nat list option" where
  "decodeBase64URL_bytes s =
     (case those_values (map base64url_value s) of
        None \<Rightarrow> None
      | Some vs \<Rightarrow> base64url_decode_values vs)"

section \<open>The cache saga (\<open>cacheWorker\<close>)\<close>





text \<open>
  \<^verbatim>\<open>crypto.getRandomValues(new Uint8Array(n))\<close>: an array of \<open>n\<close> bytes, each drawn from
  the platform's random source \<open>rng\<close>.
\<close>

fun getRandomValues :: "('w \<Rightarrow> 8 word \<times> 'w) \<Rightarrow> nat \<Rightarrow> 'w \<Rightarrow> Uint8Array \<times> 'w" where
  "getRandomValues rng 0 w = ([], w)"
| "getRandomValues rng (Suc n) w =
     (case rng w of (b, w1) \<Rightarrow> (case getRandomValues rng n w1 of (bs, w2) \<Rightarrow> (b # bs, w2)))"









section \<open>The fork URLs (\<open>getConsumeForkParameters\<close>, \<open>requestFork\<close>)\<close>

text \<open>
  \<^verbatim>\<open>String.prototype.lastIndexOf\<close> for a one-character needle: the index of the last
  occurrence, \<open>-1\<close> when there is none.
\<close>

fun lastIndexOf_from :: "char \<Rightarrow> string \<Rightarrow> int \<Rightarrow> int \<Rightarrow> int" where
  "lastIndexOf_from c [] i found = found"
| "lastIndexOf_from c (x # xs) i found = lastIndexOf_from c xs (i + 1) (if x = c then i else found)"

definition lastIndexOf :: "string \<Rightarrow> char \<Rightarrow> int" where
  "lastIndexOf s c = lastIndexOf_from c s 0 (- 1)"

text \<open>
  \<^verbatim>\<open>String.prototype.slice(start, end)\<close>: a negative index counts from the end, every
  index is clamped to the string, and a missing \<^verbatim>\<open>end\<close> is the length.
\<close>

definition slice_index :: "nat \<Rightarrow> int \<Rightarrow> nat" where
  "slice_index len i = (if i < 0 then nat (max (int len + i) 0) else min (nat i) len)"

definition slice_string :: "string \<Rightarrow> int \<Rightarrow> int option \<Rightarrow> string" where
  "slice_string s start end' =
     (let len = length s;
          from = slice_index len start;
          to = (case end' of None \<Rightarrow> len | Some e \<Rightarrow> slice_index len e)
      in take (to - from) (drop from s))"

text \<open>
  The parts of the two functions that are not in the source at hand, as parameters: the
  platform's \<^verbatim>\<open>URLSearchParams\<close> as \<open>getConsumeForkParameters\<close> uses it
  (\<open>URLSearchParams init\<close> is the list of name-value pairs of
  \<^verbatim>\<open>new URLSearchParams(init)\<close>), the platform's conversion of a number to a string
  (\<open>Number_toString n\<close> is \<^verbatim>\<open>`${n}`\<close>, for whatever a number \<open>'n\<close> is), the validators,
  the value of a member of the string enum \<^verbatim>\<open>FORK_TYPE\<close>, the account origin
  \<^verbatim>\<open>getAppHref('/', APPS.PROTONACCOUNT)\<close>, the path \<^verbatim>\<open>SSO_PATHS.AUTHORIZE\<close> and the
  platform's random source.
\<close>

record ('ft, 'n, 'w) fork_env =
  URLSearchParams :: "string \<Rightarrow> (string \<times> string) list"
  Number_toString :: "'n \<Rightarrow> string"
  getValidatedRawKey :: "string \<Rightarrow> Uint8Array option"
  getValidatedForkType :: "string \<Rightarrow> 'ft option"
  FORK_TYPE_value :: "'ft \<Rightarrow> string"
  getAppHref_PROTONACCOUNT :: string
  SSO_PATHS_AUTHORIZE :: string
  fork_rng :: "'w \<Rightarrow> 8 word \<times> 'w"

text \<open>\<^verbatim>\<open>URLSearchParams.prototype.get\<close>: the value of the first pair with that name, or \<^verbatim>\<open>null\<close>.\<close>

definition get :: "(string \<times> string) list \<Rightarrow> string \<Rightarrow> string option" where
  "get params name = map_of params name"

text \<open>\<^verbatim>\<open>x || ''\<close> for a string or \<^verbatim>\<open>null\<close>.\<close>

definition or_empty :: "string option \<Rightarrow> string" where
  "or_empty x = (case x of None \<Rightarrow> [] | Some v \<Rightarrow> if v \<noteq> [] then v else [])"

record 'ft ConsumeForkParameters =
  params_state :: string
  params_selector :: string
  params_key :: "Uint8Array option"
  params_type :: "'ft option"
  params_persistent :: bool
  params_trusted :: bool
  params_version :: fork_version

text \<open>\<open>hash\<close> is \<^verbatim>\<open>window.location.hash\<close>.\<close>

definition getConsumeForkParameters :: "('ft, 'n, 'w) fork_env \<Rightarrow> string \<Rightarrow> 'ft ConsumeForkParameters" where
  "getConsumeForkParameters env hash =
     (let sliceIndex = lastIndexOf hash (CHR ''#'') + 1;
          hashParams = URLSearchParams env (slice_string hash sliceIndex None);
          selector = or_empty (get hashParams ''selector'');
          state = or_empty (get hashParams ''state'');
          base64StringKey = or_empty (get hashParams ''sk'');
          type = or_empty (get hashParams ''t'');
          persistent = or_empty (get hashParams ''p'');
          trusted = or_empty (get hashParams ''tr'');
          version = or_empty (get hashParams ''v'')
      in \<lparr>params_state = slice_string state 0 (Some 100),
          params_selector = selector,
          params_key = (if length base64StringKey \<noteq> 0 then getValidatedRawKey env base64StringKey else None),
          params_type = getValidatedForkType env type,
          params_persistent = (persistent = ''1''),
          params_trusted = (trusted = ''1''),
          params_version = (if version = ''2'' then V2 else V1)\<rparr>)"

subsection \<open>The platform's \<open>URLSearchParams\<close>\<close>

text \<open>
  The serialiser and the parser of \<^verbatim>\<open>application/x-www-form-urlencoded\<close> as the URL
  standard has them. Both work on the UTF-8 bytes of a string; here a byte is the character
  with that code. A string of this model holds the code units up to U+00FF: one byte each
  below U+0080, two bytes (a lead byte C2 or C3 and a continuation byte) from U+0080 on.
  The decoder gives \<open>None\<close> where the platform would give a character this model cannot
  hold: a code point above U+00FF, or U+FFFD for bytes that are not UTF-8.
\<close>

definition utf8_encode_char :: "char \<Rightarrow> string" where
  "utf8_encode_char c =
     (if of_char c < (128 :: nat) then [c]
      else [char_of (192 + of_char c div (64 :: nat)), char_of (128 + of_char c mod (64 :: nat))])"

definition utf8_encode :: "string \<Rightarrow> string" where
  "utf8_encode s = concat (map utf8_encode_char s)"

fun utf8_decode :: "string \<Rightarrow> string option" where
  "utf8_decode [] = Some []"
| "utf8_decode [b] = (if of_char b < (128 :: nat) then Some [b] else None)"
| "utf8_decode (b # c # rest) =
     (if of_char b < (128 :: nat) then map_option (Cons b) (utf8_decode (c # rest))
      else if (of_char b = (194 :: nat) \<or> of_char b = (195 :: nat)) \<and>
              (128 :: nat) \<le> of_char c \<and> of_char c < (192 :: nat)
      then map_option (Cons (char_of ((of_char b - 192) * 64 + (of_char c - 128) :: nat)))
             (utf8_decode rest)
      else None)"

text \<open>
  The bytes the serialiser leaves as they are; a space becomes \<open>+\<close>, every other byte
  becomes \<open>%\<close> and two upper-case hexadecimal digits.
\<close>

definition urlencoded_safe :: "char \<Rightarrow> bool" where
  "urlencoded_safe c \<longleftrightarrow>
     c \<in> set ''ABCDEFGHIJKLMNOPQRSTUVWXYZabcdefghijklmnopqrstuvwxyz0123456789*-._''"

definition hex_digit :: "nat \<Rightarrow> char" where
  "hex_digit n = ''0123456789ABCDEF'' ! (n mod 16)"

definition hex_value :: "char \<Rightarrow> nat option" where
  "hex_value c =
     (let n = of_char c in
      if 48 \<le> n \<and> n \<le> 57 then Some (n - 48)
      else if 65 \<le> n \<and> n \<le> 70 then Some (n - 55)
      else if 97 \<le> n \<and> n \<le> 102 then Some (n - 87)
      else None)"

fun percent_encode :: "string \<Rightarrow> string" where
  "percent_encode [] = []"
| "percent_encode (c # cs) =
     (if urlencoded_safe c then [c]
      else if c = CHR '' '' then ''+''
      else [CHR ''%'', hex_digit (of_char c div 16), hex_digit (of_char c mod 16)])
     @ percent_encode cs"

fun percent_decode :: "string \<Rightarrow> string" where
  "percent_decode [] = []"
| "percent_decode [c] = [c]"
| "percent_decode [c, d] = c # percent_decode [d]"
| "percent_decode (c # h1 # h2 # rest) =
     (if c = CHR ''%'' then
        (case (hex_value h1, hex_value h2) of
           (Some a, Some b) \<Rightarrow> char_of (16 * a + b) # percent_decode rest
         | _ \<Rightarrow> c # percent_decode (h1 # h2 # rest))
      else c # percent_decode (h1 # h2 # rest))"

fun split_on :: "char \<Rightarrow> string \<Rightarrow> string list" where
  "split_on c [] = [[]]"
| "split_on c (x # xs) =
     (if x = c then [] # split_on c xs
      else (case split_on c xs of [] \<Rightarrow> [[x]] | y # ys \<Rightarrow> (x # y) # ys))"

definition plus_to_space :: "string \<Rightarrow> string" where
  "plus_to_space s = map (\<lambda>c. if c = CHR ''+'' then CHR '' '' else c) s"

text \<open>
  One sequence of bytes between two \<open>&\<close>: the name is what stands before the first
  \<open>=\<close>, the value what stands after it.
\<close>

definition urlencoded_parse_pair :: "string \<Rightarrow> (string \<times> string) option" where
  "urlencoded_parse_pair q =
     (case (utf8_decode (percent_decode (plus_to_space (takeWhile (\<lambda>c. c \<noteq> CHR ''='') q))),
            utf8_decode (percent_decode (plus_to_space (drop 1 (dropWhile (\<lambda>c. c \<noteq> CHR ''='') q)))))
      of (Some name, Some v) \<Rightarrow> Some (name, v) | _ \<Rightarrow> None)"

text \<open>
  \<^verbatim>\<open>new URLSearchParams(init)\<close> for a string: a leading \<open>?\<close> is dropped, and empty
  sequences are skipped.
\<close>

definition URLSearchParams_parse :: "string \<Rightarrow> (string \<times> string) list option" where
  "URLSearchParams_parse init =
     those (map urlencoded_parse_pair
       (filter (\<lambda>q. q \<noteq> [])
          (split_on (CHR ''&'')
             (utf8_encode (case init of [] \<Rightarrow> [] | c # cs \<Rightarrow> if c = CHR ''?'' then cs else c # cs)))))"

fun join_amp :: "string list \<Rightarrow> string" where
  "join_amp [] = []"
| "join_amp [q] = q"
| "join_amp (q # qs) = q @ ''&'' @ join_amp qs"

definition encode_pair :: "string \<times> string \<Rightarrow> string" where
  "encode_pair p =
     percent_encode (utf8_encode (fst p)) @ ''='' @ percent_encode (utf8_encode (snd p))"

text \<open>\<^verbatim>\<open>URLSearchParams.prototype.toString\<close>, on the list of pairs of the object.\<close>

definition URLSearchParams_toString :: "(string \<times> string) list \<Rightarrow> string" where
  "URLSearchParams_toString ps = join_amp (map encode_pair ps)"

text \<open>
  The query string of a URL, as the URL parser finds it: what stands after the first \<open>?\<close>,
  up to the first \<open>#\<close>, where the fragment begins.
\<close>

definition url_query :: "string \<Rightarrow> string" where
  "url_query u =
     drop 1 (dropWhile (\<lambda>c. c \<noteq> CHR ''?'') (takeWhile (\<lambda>c. c \<noteq> CHR ''#'') u))"

record ('ft, 'n) RequestForkOptions =
  opt_app :: string
  opt_host :: "string option"
  opt_localID :: "'n option"
  opt_type :: "'ft option"

record RequestForkResult =
  result_state :: string
  result_url :: string

text \<open>
  The pairs appended to \<^verbatim>\<open>searchParams\<close>, in order. \<^verbatim>\<open>if (type)\<close> tests the enum
  member's string for truthiness.
\<close>

definition requestFork_searchParams ::
  "('ft, 'n, 'w) fork_env \<Rightarrow> ('ft, 'n) RequestForkOptions \<Rightarrow> string \<Rightarrow> (string \<times> string) list" where
  "requestFork_searchParams env options state =
     [(''app'', opt_app options), (''state'', state), (''independent'', ''0'')] @
     (case opt_localID options of
        None \<Rightarrow> []
      | Some localID \<Rightarrow> [(''u'', Number_toString env localID)]) @
     (case opt_type options of
        None \<Rightarrow> []
      | Some type \<Rightarrow> if FORK_TYPE_value env type \<noteq> [] then [(''t'', FORK_TYPE_value env type)] else [])"

definition requestFork ::
  "('ft, 'n, 'w) fork_env \<Rightarrow> ('ft, 'n) RequestForkOptions \<Rightarrow> 'w \<Rightarrow> RequestForkResult \<times> 'w" where
  "requestFork env options w =
     (let host = (case opt_host options of None \<Rightarrow> getAppHref_PROTONACCOUNT env | Some h \<Rightarrow> h) in
      case getRandomValues (fork_rng env) 32 w of
        (bytes, w1) \<Rightarrow>
          let state = encodeBase64URL (uint8ArrayToString bytes);
              searchParams = requestFork_searchParams env options state
          in (\<lparr>result_state = state,
               result_url = host @ SSO_PATHS_AUTHORIZE env @ ''?'' @ URLSearchParams_toString searchParams\<rparr>,
              w1))"

text \<open>
  Shorthands for the statements below: the refresh request and the user request as
  \<open>consumeFork\<close> builds them from the answers so far, and the calls a run has added to
  the log.
\<close>

abbreviation refreshParams_of :: "('c, 'k, 'w, 'x) helpers \<Rightarrow> PullForkResponse \<Rightarrow> 'c request" where
  "refreshParams_of h pull \<equiv> withUIDHeaders h (pull_UID pull) (refreshTokens h (pull_RefreshToken pull))"

abbreviation userParams_of ::
  "('c, 'k, 'w, 'x) helpers \<Rightarrow> PullForkResponse \<Rightarrow> RefreshSessionResponse \<Rightarrow> 'c request" where
  "userParams_of h pull refresh \<equiv>
     withAuthHeaders h (pull_UID pull) (refresh_AccessToken refresh) (getUser h)"

abbreviation new_calls :: "('ev, 'w) run \<Rightarrow> ('ev, 'w) run \<Rightarrow> 'ev list" where
  "new_calls s s' \<equiv> drop (length (calls s)) (calls s')"

abbreviation hashParams_of :: "('ft, 'n, 'w) fork_env \<Rightarrow> string \<Rightarrow> (string \<times> string) list" where
  "hashParams_of env hash \<equiv> URLSearchParams env (slice_string hash (lastIndexOf hash (CHR ''#'') + 1) None)"

text \<open>
  Shorthands for a call of \<open>requestFork\<close>: what stands before the \<open>?\<close> in the URL
  it builds, the 32 bytes it draws, the state it returns and the pairs it serialises into the
  URL.
\<close>

abbreviation requestFork_base :: "('ft, 'n, 'w) fork_env \<Rightarrow> ('ft, 'n) RequestForkOptions \<Rightarrow> string" where
  "requestFork_base env options \<equiv>
     (case opt_host options of None \<Rightarrow> getAppHref_PROTONACCOUNT env | Some h \<Rightarrow> h) @
     SSO_PATHS_AUTHORIZE env"

abbreviation requestFork_bytes :: "('ft, 'n, 'w) fork_env \<Rightarrow> 'w \<Rightarrow> Uint8Array" where
  "requestFork_bytes env w \<equiv> fst (getRandomValues (fork_rng env) 32 w)"

abbreviation requestFork_state :: "('ft, 'n, 'w) fork_env \<Rightarrow> ('ft, 'n) RequestForkOptions \<Rightarrow> 'w \<Rightarrow> string" where
  "requestFork_state env options w \<equiv> result_state (fst (requestFork env options w))"

abbreviation requestFork_params ::
  "('ft, 'n, 'w) fork_env \<Rightarrow> ('ft, 'n) RequestForkOptions \<Rightarrow> 'w \<Rightarrow> (string \<times> string) list" where
  "requestFork_params env options w \<equiv>
     requestFork_searchParams env options (requestFork_state env options w)"


section \<open>Example collaborators\<close>

text \<open>
  A small server and small helpers on which the functions above can be run. A request
  configuration is its list of headers and body fields; the world counts the requests the
  server has answered; a derived key is the raw key itself. The server answers the pull of
  selector \<open>sel\<close>, then a refresh that carries the session of the pull, then a user fetch
  that carries the session and the refreshed access token; it rejects anything else.
\<close>

definition example_helpers :: "((string \<times> string) list, Uint8Array, nat, string) helpers" where
  "example_helpers =
     \<lparr>pullForkSession = (\<lambda>sel. \<lparr>url = ''auth/v4/sessions/forks/'' @ sel, config = []\<rparr>),
      refreshTokens = (\<lambda>rt. \<lparr>url = ''auth/v4/refresh'', config = [(''RefreshToken'', rt)]\<rparr>),
      getUser = \<lparr>url = ''core/v4/users'', config = []\<rparr>,
      withUIDHeaders = (\<lambda>uid q. q\<lparr>config := (''x-pm-uid'', uid) # config q\<rparr>),
      withAuthHeaders = (\<lambda>uid token q.
        q\<lparr>config := (''x-pm-uid'', uid) # (''Authorization'', ''Bearer '' @ token) # config q\<rparr>),
      getKey = (\<lambda>k w. case k of None \<Rightarrow> (Inl (Thrown ''TypeError''), w) | Some bs \<Rightarrow> (Inr bs, w)),
      getForkDecryptedBlob = (\<lambda>k blob v w.
        if k = [1, 2, 3] \<and> blob = ''enc...'' then (Inr (Some \<lparr>blob_keyPassword = Some ''pw''\<rparr>), w)
        else (Inl (Thrown ''OperationError''), w))\<rparr>"

definition example_api :: "((string \<times> string) list, nat, string) Api" where
  "example_api =
     \<lparr>api_PullForkResponse = (\<lambda>q w.
        if url q = ''auth/v4/sessions/forks/sel''
        then (Inr \<lparr>pull_UID = ''u1'', pull_RefreshToken = ''r1'', pull_LocalID = 3,
                   pull_Payload = ''enc...''\<rparr>, w + 1)
        else (Inl (Thrown ''404''), w + 1)),
      api_RefreshSessionResponse = (\<lambda>q w.
        if config q = [(''x-pm-uid'', ''u1''), (''RefreshToken'', ''r1'')]
        then (Inr \<lparr>refresh_AccessToken = ''a2'', refresh_RefreshToken = ''r2''\<rparr>, w + 1)
        else (Inl (Thrown ''401''), w + 1)),
      api_User = (\<lambda>q w.
        if config q = [(''x-pm-uid'', ''u1''), (''Authorization'', ''Bearer a2'')]
        then (Inr \<lparr>User_ID = ''user-9''\<rparr>, w + 1)
        else (Inl (Thrown ''401''), w + 1))\<rparr>"

definition example_options ::
  "ConsumeForkPayload \<Rightarrow> ((string \<times> string) list, nat, string) ConsumeForkOptions" where
  "example_options p = \<lparr>api = example_api, apiUrl = None, payload = p\<rparr>"

definition example_run :: "(((string \<times> string) list, Uint8Array) event, nat) run" where
  "example_run = \<lparr>world = 0, calls = []\<rparr>"






text \<open>
  For the fork URLs: the platform's parser wherever the model can hold its result, a
  raw-key validator that accepts four characters, the fork types \<open>1\<close> and \<open>2\<close>, and
  a random source that counts. A number is a 32-bit unsigned integer, which the platform
  writes as its decimal digits.
\<close>

definition example_URLSearchParams :: "string \<Rightarrow> (string \<times> string) list" where
  "example_URLSearchParams init = (case URLSearchParams_parse init of None \<Rightarrow> [] | Some ps \<Rightarrow> ps)"

fun digits :: "nat \<Rightarrow> string" where
  "digits n = (if n < 10 then [char_of (48 + n)] else digits (n div 10) @ [char_of (48 + n mod 10)])"

declare digits.simps [simp del]

definition example_fork_env :: "(string, 32 word, nat) fork_env" where
  "example_fork_env =
     \<lparr>URLSearchParams = example_URLSearchParams,
      Number_toString = (\<lambda>n. digits (unat n)),
      getValidatedRawKey = (\<lambda>k. if length k = 4 then Some (stringToUint8Array k) else None),
      getValidatedForkType = (\<lambda>t. if t = ''1'' \<or> t = ''2'' then Some t else None),
      FORK_TYPE_value = (\<lambda>t. t),
      getAppHref_PROTONACCOUNT = ''https://account.example'',
      SSO_PATHS_AUTHORIZE = ''/authorize'',
      fork_rng = (\<lambda>w. (of_nat (7 * w + 3), w + 1))\<rparr>"

definition example_request :: "(string, 32 word) RequestForkOptions" where
  "example_request =
     \<lparr>opt_app = ''proton-pass'', opt_host = None, opt_localID = Some 0, opt_type = Some ''1''\<rparr>"

text \<open>The same request, sent to a host that has a query of its own.\<close>

definition example_request_query_host :: "(string, 32 word) RequestForkOptions" where
  "example_request_query_host = example_request\<lparr>opt_host := Some ''https://a.example/?x=1''\<rparr>"

section \<open>Properties of \<open>consumeFork\<close>\<close>

lemma validFork_iff:
  "validFork p \<longleftrightarrow> \<not> (payload_selector p = [] \<or> payload_state p = [] \<or>
        (payload_mode p = sso \<and> (payload_localState p = None \<or> payload_key p = None)))"
  by (cases p) (auto simp: validFork_def)

lemma consumeFork_invalid:
  "\<not> validFork (payload options) \<Longrightarrow>
   consumeFork h options s = (Inl (InvalidForkConsumeError ''Invalid fork state''), s)"
  by (simp add: consumeFork_def)

lemma resolveKeyPassword_calls_prefix:
  "resolveKeyPassword h p P s = (r, s') \<Longrightarrow> \<exists>evs. calls s' = calls s @ evs"
  by (auto simp: resolveKeyPassword_def perform_def split: if_splits prod.splits sum.splits)

lemma consumeFork_valid_calls:
  "validFork (payload options) \<Longrightarrow>
   \<exists>evs. calls (snd (consumeFork h options s)) =
      calls s @ ApiCall (pullForkParams_of h (apiUrl options) (payload_selector (payload options))) # evs"
  apply (simp add: consumeFork_def Let_def perform_def split: prod.splits sum.splits)
  apply (auto dest!: resolveKeyPassword_calls_prefix)
  done

lemmas example_defs =
  example_helpers_def example_api_def example_options_def example_run_def
  consumeFork_def resolveKeyPassword_def pullForkParams_of_def perform_def validFork_def

text \<open>
  Claim C1. \<open>consumeFork\<close> throws \<open>InvalidForkConsumeError('Invalid fork state')\<close> with no
  call issued (the log of calls is as it was) if and only if the payload fails the gate:
  the selector is empty, or the state is empty, or the mode is sso and the local state is
  null or the key is absent. When the gate fails the run state as a whole is untouched; an
  sso payload whose local state is null fails whatever its other fields are.
\<close>

theorem consumeFork_invalid_fork_state:
  "((fst (consumeFork h options s) = Inl (InvalidForkConsumeError ''Invalid fork state'') \<and>
     calls (snd (consumeFork h options s)) = calls s)
    \<longleftrightarrow>
    (payload_selector (payload options) = [] \<or> payload_state (payload options) = [] \<or>
     (payload_mode (payload options) = sso \<and>
      (payload_localState (payload options) = None \<or> payload_key (payload options) = None))))
   \<and>
   (payload_selector (payload options) = [] \<or> payload_state (payload options) = [] \<or>
     (payload_mode (payload options) = sso \<and>
      (payload_localState (payload options) = None \<or> payload_key (payload options) = None))
    \<longrightarrow> consumeFork h options s = (Inl (InvalidForkConsumeError ''Invalid fork state''), s))
   \<and>
   (payload_mode (payload options) = sso \<and> payload_localState (payload options) = None
    \<longrightarrow> consumeFork h options s = (Inl (InvalidForkConsumeError ''Invalid fork state''), s))"
proof -
  let ?fails = "payload_selector (payload options) = [] \<or> payload_state (payload options) = [] \<or>
     (payload_mode (payload options) = sso \<and>
      (payload_localState (payload options) = None \<or> payload_key (payload options) = None))"
  have gate: "?fails \<longleftrightarrow> \<not> validFork (payload options)"
    by (simp add: validFork_iff)
  have down: "?fails \<longrightarrow> consumeFork h options s = (Inl (InvalidForkConsumeError ''Invalid fork state''), s)"
    using consumeFork_invalid [of options h s] gate by blast
  have up: "\<not> ?fails \<longrightarrow> calls (snd (consumeFork h options s)) \<noteq> calls s"
    using consumeFork_valid_calls [of options h s] gate by auto
  from down up show ?thesis by auto
qed

theorem consumeFork_invalid_fork_state_witness:
  "payload_mode (Sso None ''st'' ''sel'' (Some [1, 2, 3]) V2) = sso \<and>
   payload_localState (Sso None ''st'' ''sel'' (Some [1, 2, 3]) V2) = None \<and>
   consumeFork example_helpers (example_options (Sso None ''st'' ''sel'' (Some [1, 2, 3]) V2)) example_run
     = (Inl (InvalidForkConsumeError ''Invalid fork state''), example_run)"
  using consumeFork_invalid_fork_state
          [of example_helpers "example_options (Sso None ''st'' ''sel'' (Some [1, 2, 3]) V2)" example_run]
  by (simp add: example_options_def)

text \<open>
  Claim C2. For an sso payload that passes the gate, once the three requests have been
  answered, whatever \<open>getKey\<close> or \<open>getForkDecryptedBlob\<close> throws (\<open>e\<close> is any thrown value),
  \<open>consumeFork\<close> throws exactly \<open>InvalidForkConsumeError('Failed to decrypt fork payload')\<close>:
  the value \<open>e\<close> does not reach the caller.
\<close>

theorem consumeFork_decrypt_failure:
  assumes gate: "validFork (payload options)"
    and mode: "payload_mode (payload options) = sso"
    and pull: "api_PullForkResponse (api options)
                 (pullForkParams_of h (apiUrl options) (payload_selector (payload options))) (world s)
               = (Inr pull, w1)"
    and refresh: "api_RefreshSessionResponse (api options)
                 (withUIDHeaders h (pull_UID pull) (refreshTokens h (pull_RefreshToken pull))) w1
               = (Inr refresh, w2)"
    and user: "api_User (api options)
                 (withAuthHeaders h (pull_UID pull) (refresh_AccessToken refresh) (getUser h)) w2
               = (Inr user, w3)"
    and crypto: "getKey h (payload_key (payload options)) w3 = (Inl e, w4) \<or>
                 (\<exists>k w. getKey h (payload_key (payload options)) w3 = (Inr k, w) \<and>
                    getForkDecryptedBlob h k (pull_Payload pull) (payload_version (payload options)) w
                    = (Inl e, w4))"
  shows "fst (consumeFork h options s) = Inl (InvalidForkConsumeError ''Failed to decrypt fork payload'')"
  using gate mode crypto
  by (auto simp: consumeFork_def Let_def resolveKeyPassword_def perform_def pull refresh user)

theorem consumeFork_decrypt_failure_witness:
  "validFork (Sso (Some ''st'') ''st'' ''sel'' (Some [9]) V2) \<and>
   getForkDecryptedBlob example_helpers [9] ''enc...'' V2 3 = (Inl (Thrown ''OperationError''), 3) \<and>
   fst (consumeFork example_helpers (example_options (Sso (Some ''st'') ''st'' ''sel'' (Some [9]) V2))
          example_run)
     = Inl (InvalidForkConsumeError ''Failed to decrypt fork payload'')"
  using consumeFork_decrypt_failure
          [of "example_options (Sso (Some ''st'') ''st'' ''sel'' (Some [9]) V2)" example_helpers
              example_run
              "\<lparr>pull_UID = ''u1'', pull_RefreshToken = ''r1'', pull_LocalID = 3, pull_Payload = ''enc...''\<rparr>"
              1 "\<lparr>refresh_AccessToken = ''a2'', refresh_RefreshToken = ''r2''\<rparr>" 2
              "\<lparr>User_ID = ''user-9''\<rparr>" 3 "Thrown ''OperationError''" 3]
  by (simp add: example_helpers_def example_api_def example_options_def example_run_def
        pullForkParams_of_def validFork_def)

lemma resolveKeyPassword_no_ApiCall:
  "resolveKeyPassword h p P s = (r, s') \<Longrightarrow>
   \<exists>evs. calls s' = calls s @ evs \<and> (\<forall>e\<in>set evs. \<not> is_ApiCall e) \<and>
     (\<forall>k. GetKeyCall k \<in> set evs \<longrightarrow> k = payload_key p \<and> payload_mode p = sso) \<and>
     (payload_mode p = secure \<longrightarrow> evs = [] \<and> r = Inr (payload_keyPassword p)) \<and>
     (\<forall>e. r = Inl e \<longrightarrow> e = InvalidForkConsumeError ''Failed to decrypt fork payload'')"
  by (cases p) (auto simp: resolveKeyPassword_def perform_def split: if_splits prod.splits sum.splits)

lemma consumeFork_pull_fails:
  assumes "validFork (payload options)"
    and "api_PullForkResponse (api options)
           (pullForkParams_of h (apiUrl options) (payload_selector (payload options))) (world s)
         = (Inl e, w1)"
  shows "consumeFork h options s =
     (Inl e, \<lparr>world = w1, calls = calls s @
        [ApiCall (pullForkParams_of h (apiUrl options) (payload_selector (payload options)))]\<rparr>)"
  using assms by (simp add: consumeFork_def Let_def perform_def)

lemma consumeFork_refresh_fails:
  assumes "validFork (payload options)"
    and "api_PullForkResponse (api options)
           (pullForkParams_of h (apiUrl options) (payload_selector (payload options))) (world s)
         = (Inr pull, w1)"
    and "api_RefreshSessionResponse (api options) (refreshParams_of h pull) w1 = (Inl e, w2)"
  shows "consumeFork h options s =
     (Inl e, \<lparr>world = w2, calls = calls s @
        [ApiCall (pullForkParams_of h (apiUrl options) (payload_selector (payload options))),
         ApiCall (refreshParams_of h pull)]\<rparr>)"
  using assms by (simp add: consumeFork_def Let_def perform_def)

lemma consumeFork_user_fails:
  assumes "validFork (payload options)"
    and "api_PullForkResponse (api options)
           (pullForkParams_of h (apiUrl options) (payload_selector (payload options))) (world s)
         = (Inr pull, w1)"
    and "api_RefreshSessionResponse (api options) (refreshParams_of h pull) w1 = (Inr refresh, w2)"
    and "api_User (api options) (userParams_of h pull refresh) w2 = (Inl e, w3)"
  shows "consumeFork h options s =
     (Inl e, \<lparr>world = w3, calls = calls s @
        [ApiCall (pullForkParams_of h (apiUrl options) (payload_selector (payload options))),
         ApiCall (refreshParams_of h pull), ApiCall (userParams_of h pull refresh)]\<rparr>)"
  using assms by (simp add: consumeFork_def Let_def perform_def)

lemma consumeFork_answered:
  assumes "validFork (payload options)"
    and "api_PullForkResponse (api options)
           (pullForkParams_of h (apiUrl options) (payload_selector (payload options))) (world s)
         = (Inr pull, w1)"
    and "api_RefreshSessionResponse (api options) (refreshParams_of h pull) w1 = (Inr refresh, w2)"
    and "api_User (api options) (userParams_of h pull refresh) w2 = (Inr user, w3)"
  shows "consumeFork h options s =
     (case resolveKeyPassword h (payload options) (pull_Payload pull)
             \<lparr>world = w3, calls = calls s @
                [ApiCall (pullForkParams_of h (apiUrl options) (payload_selector (payload options))),
                 ApiCall (refreshParams_of h pull), ApiCall (userParams_of h pull refresh)]\<rparr> of
        (Inl e, s4) \<Rightarrow> (Inl e, s4)
      | (Inr kp, s4) \<Rightarrow>
          (Inr \<lparr>AccessToken = refresh_AccessToken refresh, keyPassword = kp,
                LocalID = pull_LocalID pull, RefreshToken = refresh_RefreshToken refresh,
                UID = pull_UID pull, UserID = User_ID user\<rparr>, s4))"
  using assms by (simp add: consumeFork_def Let_def perform_def)

lemma consumeFork_success_cases:
  assumes "fst (consumeFork h options s) = Inr session"
  shows "validFork (payload options) \<and>
    (\<exists>pull w1 refresh w2 user w3 kp s4.
      api_PullForkResponse (api options)
           (pullForkParams_of h (apiUrl options) (payload_selector (payload options))) (world s)
         = (Inr pull, w1) \<and>
      api_RefreshSessionResponse (api options) (refreshParams_of h pull) w1 = (Inr refresh, w2) \<and>
      api_User (api options) (userParams_of h pull refresh) w2 = (Inr user, w3) \<and>
      resolveKeyPassword h (payload options) (pull_Payload pull)
             \<lparr>world = w3, calls = calls s @
                [ApiCall (pullForkParams_of h (apiUrl options) (payload_selector (payload options))),
                 ApiCall (refreshParams_of h pull), ApiCall (userParams_of h pull refresh)]\<rparr>
        = (Inr kp, s4) \<and>
      consumeFork h options s =
          (Inr \<lparr>AccessToken = refresh_AccessToken refresh, keyPassword = kp,
                LocalID = pull_LocalID pull, RefreshToken = refresh_RefreshToken refresh,
                UID = pull_UID pull, UserID = User_ID user\<rparr>, s4))"
  using assms
  apply (simp add: consumeFork_def Let_def perform_def split: if_splits prod.splits sum.splits)
  apply auto
  done

text \<open>
  Claim C3, as amended. The network calls of \<open>consumeFork\<close> are three, not four: the
  pull of the fork, the refresh and the user fetch, in this order, each issued in the world the
  one before has left. The refresh request is built from the \<open>UID\<close> and the
  \<open>RefreshToken\<close> of the pull, the user request from that \<open>UID\<close> and the
  \<open>AccessToken\<close> of the refresh. A call that fails ends the run: what it threw is the
  result as it is, and no later call is issued. All three have been answered in every run
  that succeeds; once they are, no further network call follows, and the run either succeeds
  or throws the error of the decryption step, the only one that is wrapped.
\<close>

theorem consumeFork_three_network_calls:
  assumes gate: "validFork (payload options)"
  shows
   "(\<forall>e w1.
       api_PullForkResponse (api options)
         (pullForkParams_of h (apiUrl options) (payload_selector (payload options))) (world s)
         = (Inl e, w1) \<longrightarrow>
       consumeFork h options s =
         (Inl e, \<lparr>world = w1, calls = calls s @
            [ApiCall (pullForkParams_of h (apiUrl options) (payload_selector (payload options)))]\<rparr>))
    \<and>
    (\<forall>pull w1 e w2.
       api_PullForkResponse (api options)
         (pullForkParams_of h (apiUrl options) (payload_selector (payload options))) (world s)
         = (Inr pull, w1) \<and>
       api_RefreshSessionResponse (api options) (refreshParams_of h pull) w1 = (Inl e, w2) \<longrightarrow>
       consumeFork h options s =
         (Inl e, \<lparr>world = w2, calls = calls s @
            [ApiCall (pullForkParams_of h (apiUrl options) (payload_selector (payload options))),
             ApiCall (refreshParams_of h pull)]\<rparr>))
    \<and>
    (\<forall>pull w1 refresh w2 e w3.
       api_PullForkResponse (api options)
         (pullForkParams_of h (apiUrl options) (payload_selector (payload options))) (world s)
         = (Inr pull, w1) \<and>
       api_RefreshSessionResponse (api options) (refreshParams_of h pull) w1 = (Inr refresh, w2) \<and>
       api_User (api options) (userParams_of h pull refresh) w2 = (Inl e, w3) \<longrightarrow>
       consumeFork h options s =
         (Inl e, \<lparr>world = w3, calls = calls s @
            [ApiCall (pullForkParams_of h (apiUrl options) (payload_selector (payload options))),
             ApiCall (refreshParams_of h pull), ApiCall (userParams_of h pull refresh)]\<rparr>))
    \<and>
    (\<forall>pull w1 refresh w2 user w3.
       api_PullForkResponse (api options)
         (pullForkParams_of h (apiUrl options) (payload_selector (payload options))) (world s)
         = (Inr pull, w1) \<and>
       api_RefreshSessionResponse (api options) (refreshParams_of h pull) w1 = (Inr refresh, w2) \<and>
       api_User (api options) (userParams_of h pull refresh) w2 = (Inr user, w3) \<longrightarrow>
       (\<exists>evs. calls (snd (consumeFork h options s)) = calls s @
            [ApiCall (pullForkParams_of h (apiUrl options) (payload_selector (payload options))),
             ApiCall (refreshParams_of h pull), ApiCall (userParams_of h pull refresh)] @ evs \<and>
          (\<forall>ev\<in>set evs. \<not> is_ApiCall ev)) \<and>
       ((\<exists>session. fst (consumeFork h options s) = Inr session) \<or>
        fst (consumeFork h options s) = Inl (InvalidForkConsumeError ''Failed to decrypt fork payload'')))
    \<and>
    (\<forall>session. fst (consumeFork h options s) = Inr session \<longrightarrow>
       (\<exists>pull w1 refresh w2 user w3.
          api_PullForkResponse (api options)
            (pullForkParams_of h (apiUrl options) (payload_selector (payload options))) (world s)
            = (Inr pull, w1) \<and>
          api_RefreshSessionResponse (api options) (refreshParams_of h pull) w1 = (Inr refresh, w2) \<and>
          api_User (api options) (userParams_of h pull refresh) w2 = (Inr user, w3)))"
proof (intro conjI allI impI)
  fix e w1
  assume "api_PullForkResponse (api options)
         (pullForkParams_of h (apiUrl options) (payload_selector (payload options))) (world s)
         = (Inl e, w1)"
  then show "consumeFork h options s =
         (Inl e, \<lparr>world = w1, calls = calls s @
            [ApiCall (pullForkParams_of h (apiUrl options) (payload_selector (payload options)))]\<rparr>)"
    by (rule consumeFork_pull_fails [OF gate])
next
  fix pull w1 e w2
  assume "api_PullForkResponse (api options)
         (pullForkParams_of h (apiUrl options) (payload_selector (payload options))) (world s)
         = (Inr pull, w1) \<and>
       api_RefreshSessionResponse (api options) (refreshParams_of h pull) w1 = (Inl e, w2)"
  then show "consumeFork h options s =
         (Inl e, \<lparr>world = w2, calls = calls s @
            [ApiCall (pullForkParams_of h (apiUrl options) (payload_selector (payload options))),
             ApiCall (refreshParams_of h pull)]\<rparr>)"
    using consumeFork_refresh_fails [OF gate] by blast
next
  fix pull w1 refresh w2 e w3
  assume "api_PullForkResponse (api options)
         (pullForkParams_of h (apiUrl options) (payload_selector (payload options))) (world s)
         = (Inr pull, w1) \<and>
       api_RefreshSessionResponse (api options) (refreshParams_of h pull) w1 = (Inr refresh, w2) \<and>
       api_User (api options) (userParams_of h pull refresh) w2 = (Inl e, w3)"
  then show "consumeFork h options s =
         (Inl e, \<lparr>world = w3, calls = calls s @
            [ApiCall (pullForkParams_of h (apiUrl options) (payload_selector (payload options))),
             ApiCall (refreshParams_of h pull), ApiCall (userParams_of h pull refresh)]\<rparr>)"
    using consumeFork_user_fails [OF gate] by blast
next
  fix pull w1 refresh w2 user w3
  assume a: "api_PullForkResponse (api options)
         (pullForkParams_of h (apiUrl options) (payload_selector (payload options))) (world s)
         = (Inr pull, w1) \<and>
       api_RefreshSessionResponse (api options) (refreshParams_of h pull) w1 = (Inr refresh, w2) \<and>
       api_User (api options) (userParams_of h pull refresh) w2 = (Inr user, w3)"
  let ?s3 = "\<lparr>world = w3, calls = calls s @
                [ApiCall (pullForkParams_of h (apiUrl options) (payload_selector (payload options))),
                 ApiCall (refreshParams_of h pull), ApiCall (userParams_of h pull refresh)]\<rparr>"
  obtain r s4 where res: "resolveKeyPassword h (payload options) (pull_Payload pull) ?s3 = (r, s4)"
    by (cases "resolveKeyPassword h (payload options) (pull_Payload pull) ?s3") auto
  from resolveKeyPassword_no_ApiCall [OF res] obtain evs where
    evs: "calls s4 = calls ?s3 @ evs" "\<forall>e\<in>set evs. \<not> is_ApiCall e"
      "\<forall>e. r = Inl e \<longrightarrow> e = InvalidForkConsumeError ''Failed to decrypt fork payload''"
    by blast
  have eq: "consumeFork h options s =
     (case (r, s4) of
        (Inl e, s4) \<Rightarrow> (Inl e, s4)
      | (Inr kp, s4) \<Rightarrow>
          (Inr \<lparr>AccessToken = refresh_AccessToken refresh, keyPassword = kp,
                LocalID = pull_LocalID pull, RefreshToken = refresh_RefreshToken refresh,
                UID = pull_UID pull, UserID = User_ID user\<rparr>, s4))"
    using consumeFork_answered [OF gate, of h s pull w1 refresh w2 user w3] a res by simp
  have snd_eq: "snd (consumeFork h options s) = s4"
    using eq by (cases r) simp_all
  show "\<exists>evs. calls (snd (consumeFork h options s)) = calls s @
            [ApiCall (pullForkParams_of h (apiUrl options) (payload_selector (payload options))),
             ApiCall (refreshParams_of h pull), ApiCall (userParams_of h pull refresh)] @ evs \<and>
          (\<forall>ev\<in>set evs. \<not> is_ApiCall ev)"
    using evs(1,2) snd_eq by auto
  show "(\<exists>session. fst (consumeFork h options s) = Inr session) \<or>
        fst (consumeFork h options s) = Inl (InvalidForkConsumeError ''Failed to decrypt fork payload'')"
    using eq evs(3) by (cases r) simp_all
next
  fix session
  assume "fst (consumeFork h options s) = Inr session"
  from consumeFork_success_cases [OF this]
  show "\<exists>pull w1 refresh w2 user w3.
          api_PullForkResponse (api options)
            (pullForkParams_of h (apiUrl options) (payload_selector (payload options))) (world s)
            = (Inr pull, w1) \<and>
          api_RefreshSessionResponse (api options) (refreshParams_of h pull) w1 = (Inr refresh, w2) \<and>
          api_User (api options) (userParams_of h pull refresh) w2 = (Inr user, w3)"
    by blast
qed

text \<open>
  Claim C3 as stated speaks of a chain of four operations. A run in secure mode that
  succeeds issues three calls in all, the three requests; the key password is read from the
  payload.
\<close>

theorem consumeFork_four_operations_counterexample:
  "fst (consumeFork example_helpers (example_options (Secure ''st'' ''sel'' ''pw0'')) example_run) =
     Inr \<lparr>AccessToken = ''a2'', keyPassword = ''pw0'', LocalID = 3, RefreshToken = ''r2'',
            UID = ''u1'', UserID = ''user-9''\<rparr> \<and>
   length (calls (snd (consumeFork example_helpers (example_options (Secure ''st'' ''sel'' ''pw0''))
                         example_run))) = 3 \<and>
   length (calls (snd (consumeFork example_helpers (example_options (Secure ''st'' ''sel'' ''pw0''))
                         example_run))) \<noteq> 4 \<and>
   length (filter is_ApiCall
      (calls (snd (consumeFork example_helpers
         (example_options (Sso (Some ''st'') ''st'' ''sel'' (Some [1, 2, 3]) V2)) example_run)))) = 3"
  by (simp add: example_defs)

theorem consumeFork_three_network_calls_witness:
  "validFork (Secure ''st'' ''nope'' ''pw0'') \<and>
   consumeFork example_helpers (example_options (Secure ''st'' ''nope'' ''pw0'')) example_run =
     (Inl (Thrown ''404''),
      \<lparr>world = 1, calls = [ApiCall \<lparr>url = ''auth/v4/sessions/forks/nope'', config = []\<rparr>]\<rparr>)"
proof -
  have gate: "validFork (payload (example_options (Secure ''st'' ''nope'' ''pw0'')))"
    by (simp add: example_options_def validFork_def)
  have pull: "api_PullForkResponse (api (example_options (Secure ''st'' ''nope'' ''pw0'')))
         (pullForkParams_of example_helpers (apiUrl (example_options (Secure ''st'' ''nope'' ''pw0'')))
            (payload_selector (payload (example_options (Secure ''st'' ''nope'' ''pw0'')))))
         (world example_run) = (Inl (Thrown ''404''), 1)"
    by (simp add: example_helpers_def example_api_def example_options_def example_run_def
          pullForkParams_of_def)
  from consumeFork_three_network_calls [OF gate, of example_helpers example_run] pull
  have "consumeFork example_helpers (example_options (Secure ''st'' ''nope'' ''pw0'')) example_run =
         (Inl (Thrown ''404''), \<lparr>world = 1, calls = calls example_run @
            [ApiCall (pullForkParams_of example_helpers
               (apiUrl (example_options (Secure ''st'' ''nope'' ''pw0'')))
               (payload_selector (payload (example_options (Secure ''st'' ''nope'' ''pw0'')))))]\<rparr>)"
    by blast
  then show ?thesis
    by (simp add: example_helpers_def example_options_def example_run_def pullForkParams_of_def
          validFork_def)
qed



text \<open>
  Claim C5. For a payload in secure mode with a selector and a state that are not empty,
  every call of the run is a request (\<open>getKey\<close> and \<open>getForkDecryptedBlob\<close> are not
  called, and the run is the same whatever these two are), and once the three requests are
  answered the run succeeds with the \<open>keyPassword\<close> of the payload.
\<close>

theorem consumeFork_secure_mode:
  assumes mode: "payload_mode (payload options) = secure"
    and sel: "payload_selector (payload options) \<noteq> []"
    and st: "payload_state (payload options) \<noteq> []"
  shows
   "(\<forall>ev\<in>set (new_calls s (snd (consumeFork h options s))). is_ApiCall ev) \<and>
    consumeFork (h\<lparr>getKey := g, getForkDecryptedBlob := d\<rparr>) options s = consumeFork h options s \<and>
    (\<forall>pull w1 refresh w2 user w3.
       api_PullForkResponse (api options)
         (pullForkParams_of h (apiUrl options) (payload_selector (payload options))) (world s)
         = (Inr pull, w1) \<and>
       api_RefreshSessionResponse (api options) (refreshParams_of h pull) w1 = (Inr refresh, w2) \<and>
       api_User (api options) (userParams_of h pull refresh) w2 = (Inr user, w3) \<longrightarrow>
       (\<exists>session. fst (consumeFork h options s) = Inr session \<and>
          keyPassword session = payload_keyPassword (payload options))) \<and>
    (\<forall>session. fst (consumeFork h options s) = Inr session \<longrightarrow>
       keyPassword session = payload_keyPassword (payload options))"
  using mode sel st
  by (cases "payload options")
     (simp_all add: consumeFork_def Let_def validFork_def resolveKeyPassword_def
        pullForkParams_of_def perform_def split: prod.splits sum.splits)

theorem consumeFork_secure_mode_witness:
  "payload_mode (Secure ''st'' ''sel'' ''pw0'') = secure \<and>
   consumeFork example_helpers (example_options (Secure ''st'' ''sel'' ''pw0'')) example_run =
     (Inr \<lparr>AccessToken = ''a2'', keyPassword = ''pw0'', LocalID = 3, RefreshToken = ''r2'',
            UID = ''u1'', UserID = ''user-9''\<rparr>,
      \<lparr>world = 3, calls =
        [ApiCall \<lparr>url = ''auth/v4/sessions/forks/sel'', config = []\<rparr>,
         ApiCall \<lparr>url = ''auth/v4/refresh'',
                  config = [(''x-pm-uid'', ''u1''), (''RefreshToken'', ''r1'')]\<rparr>,
         ApiCall \<lparr>url = ''core/v4/users'',
                  config = [(''x-pm-uid'', ''u1''), (''Authorization'', ''Bearer a2'')]\<rparr>]\<rparr>) \<and>
   list_all is_ApiCall (new_calls example_run
        (snd (consumeFork example_helpers (example_options (Secure ''st'' ''sel'' ''pw0'')) example_run)))"
proof -
  have run: "consumeFork example_helpers (example_options (Secure ''st'' ''sel'' ''pw0'')) example_run =
     (Inr \<lparr>AccessToken = ''a2'', keyPassword = ''pw0'', LocalID = 3, RefreshToken = ''r2'',
            UID = ''u1'', UserID = ''user-9''\<rparr>,
      \<lparr>world = 3, calls =
        [ApiCall \<lparr>url = ''auth/v4/sessions/forks/sel'', config = []\<rparr>,
         ApiCall \<lparr>url = ''auth/v4/refresh'',
                  config = [(''x-pm-uid'', ''u1''), (''RefreshToken'', ''r1'')]\<rparr>,
         ApiCall \<lparr>url = ''core/v4/users'',
                  config = [(''x-pm-uid'', ''u1''), (''Authorization'', ''Bearer a2'')]\<rparr>]\<rparr>)"
    by (simp add: example_defs)
  have "\<forall>ev\<in>set (new_calls example_run
        (snd (consumeFork example_helpers (example_options (Secure ''st'' ''sel'' ''pw0'')) example_run))).
      is_ApiCall ev"
    using consumeFork_secure_mode
            [of "example_options (Secure ''st'' ''sel'' ''pw0'')" example_run example_helpers]
    by (simp add: example_options_def)
  then have "list_all is_ApiCall (new_calls example_run
        (snd (consumeFork example_helpers (example_options (Secure ''st'' ''sel'' ''pw0'')) example_run)))"
    by (simp only: list_all_iff)
  with run show ?thesis by simp
qed

text \<open>
  Claim C9. An sso payload that passes the gate has a key, and in every run \<open>getKey\<close> is
  called only with the key of an sso payload that has passed the gate, never with an absent
  key: \<^verbatim>\<open>payload.key!\<close> is never evaluated on \<^verbatim>\<open>undefined\<close>.
\<close>

theorem consumeFork_key_defined:
  "(validFork (payload options) \<and> payload_mode (payload options) = sso
      \<longrightarrow> payload_key (payload options) \<noteq> None) \<and>
   (\<forall>k. GetKeyCall k \<in> set (new_calls s (snd (consumeFork h options s))) \<longrightarrow>
      k \<noteq> None \<and> k = payload_key (payload options) \<and>
      payload_mode (payload options) = sso \<and> validFork (payload options))"
proof (intro conjI allI impI)
  assume "validFork (payload options) \<and> payload_mode (payload options) = sso"
  then show "payload_key (payload options) \<noteq> None"
    by (cases "payload options") (auto simp: validFork_def)
next
  fix k
  assume k: "GetKeyCall k \<in> set (new_calls s (snd (consumeFork h options s)))"
  have gate: "validFork (payload options)"
  proof (rule ccontr)
    assume "\<not> validFork (payload options)"
    then have "consumeFork h options s = (Inl (InvalidForkConsumeError ''Invalid fork state''), s)"
      by (rule consumeFork_invalid)
    with k show False by simp
  qed
  have "k = payload_key (payload options) \<and> payload_mode (payload options) = sso"
    using k gate
    apply (simp add: consumeFork_def Let_def perform_def split: prod.splits sum.splits)
    apply (auto dest!: resolveKeyPassword_no_ApiCall)
    done
  moreover from this gate have "k \<noteq> None"
    by (cases "payload options") (auto simp: validFork_def)
  ultimately show "k \<noteq> None" "k = payload_key (payload options)"
    "payload_mode (payload options) = sso" "validFork (payload options)"
    using gate by simp_all
qed

theorem consumeFork_key_defined_witness:
  "GetKeyCall (Some [1, 2, 3]) \<in> set (new_calls example_run
       (snd (consumeFork example_helpers
          (example_options (Sso (Some ''st'') ''st'' ''sel'' (Some [1, 2, 3]) V2)) example_run))) \<and>
   validFork (Sso (Some ''st'') ''st'' ''sel'' (Some [1, 2, 3]) V2)"
proof -
  have "GetKeyCall (Some [1, 2, 3]) \<in> set (new_calls example_run
       (snd (consumeFork example_helpers
          (example_options (Sso (Some ''st'') ''st'' ''sel'' (Some [1, 2, 3]) V2)) example_run)))"
    by (simp add: example_defs)
  with consumeFork_key_defined
         [of "example_options (Sso (Some ''st'') ''st'' ''sel'' (Some [1, 2, 3]) V2)"
             example_run example_helpers]
  show ?thesis by (simp add: example_options_def)
qed


section \<open>Properties of \<open>cacheWorker\<close>\<close>




section \<open>Properties of \<open>getConsumeForkParameters\<close>\<close>






lemma slice_string_0_to: "0 \<le> n \<Longrightarrow> slice_string s 0 (Some n) = take (nat n) s"
  by (auto simp: slice_string_def slice_index_def Let_def min_def)

lemma or_empty_simps [simp]: "or_empty None = []" "or_empty (Some v) = v"
  by (auto simp: or_empty_def)

text \<open>
  Claim C7. The \<open>state\<close> returned is the raw \<open>state\<close> parameter cut to its first 100
  characters: at most 100 long, and exactly 100 when the raw parameter is longer. \<open>state\<close>
  and \<open>selector\<close> are the empty string when the parameter is absent.
\<close>

theorem getConsumeForkParameters_state_truncated:
  "params_state (getConsumeForkParameters env hash) =
     take 100 (or_empty (get (hashParams_of env hash) ''state'')) \<and>
   length (params_state (getConsumeForkParameters env hash)) \<le> 100 \<and>
   (100 < length (or_empty (get (hashParams_of env hash) ''state'')) \<longrightarrow>
      length (params_state (getConsumeForkParameters env hash)) = 100) \<and>
   (\<forall>v. get (hashParams_of env hash) ''state'' = Some v \<longrightarrow>
      params_state (getConsumeForkParameters env hash) = take 100 v) \<and>
   (get (hashParams_of env hash) ''state'' = None \<longrightarrow>
      params_state (getConsumeForkParameters env hash) = []) \<and>
   (\<forall>v. get (hashParams_of env hash) ''selector'' = Some v \<longrightarrow>
      params_selector (getConsumeForkParameters env hash) = v) \<and>
   (get (hashParams_of env hash) ''selector'' = None \<longrightarrow>
      params_selector (getConsumeForkParameters env hash) = [])"
  by (simp add: getConsumeForkParameters_def Let_def slice_string_0_to)

theorem getConsumeForkParameters_state_truncated_witness:
  "get (hashParams_of example_fork_env
          ''#selector=sel&state=aaaaaaaaaaaaaaaaaaaaaaaaaaaaaaaaaaaaaaaaaaaaaaaaaabbbbbbbbbbbbbbbbbbbbbbbbbbbbbbbbbbbbbbbbbbbbbbbbbbcdef'') ''state''
     = Some ''aaaaaaaaaaaaaaaaaaaaaaaaaaaaaaaaaaaaaaaaaaaaaaaaaabbbbbbbbbbbbbbbbbbbbbbbbbbbbbbbbbbbbbbbbbbbbbbbbbbcdef'' \<and>
   length ''aaaaaaaaaaaaaaaaaaaaaaaaaaaaaaaaaaaaaaaaaaaaaaaaaabbbbbbbbbbbbbbbbbbbbbbbbbbbbbbbbbbbbbbbbbbbbbbbbbbcdef'' = 104 \<and>
   params_state (getConsumeForkParameters example_fork_env
          ''#selector=sel&state=aaaaaaaaaaaaaaaaaaaaaaaaaaaaaaaaaaaaaaaaaaaaaaaaaabbbbbbbbbbbbbbbbbbbbbbbbbbbbbbbbbbbbbbbbbbbbbbbbbbcdef'')
     = ''aaaaaaaaaaaaaaaaaaaaaaaaaaaaaaaaaaaaaaaaaaaaaaaaaabbbbbbbbbbbbbbbbbbbbbbbbbbbbbbbbbbbbbbbbbbbbbbbbbb'' \<and>
   get (hashParams_of example_fork_env ''#state=st'') ''selector'' = None \<and>
   params_selector (getConsumeForkParameters example_fork_env ''#state=st'') = []"
proof -
  have a: "get (hashParams_of example_fork_env
          ''#selector=sel&state=aaaaaaaaaaaaaaaaaaaaaaaaaaaaaaaaaaaaaaaaaaaaaaaaaabbbbbbbbbbbbbbbbbbbbbbbbbbbbbbbbbbbbbbbbbbbbbbbbbbcdef'') ''state''
     = Some ''aaaaaaaaaaaaaaaaaaaaaaaaaaaaaaaaaaaaaaaaaaaaaaaaaabbbbbbbbbbbbbbbbbbbbbbbbbbbbbbbbbbbbbbbbbbbbbbbbbbcdef''"
    by code_simp
  have b: "get (hashParams_of example_fork_env ''#state=st'') ''selector'' = None"
    by code_simp
  from getConsumeForkParameters_state_truncated
         [of example_fork_env "''#selector=sel&state=aaaaaaaaaaaaaaaaaaaaaaaaaaaaaaaaaaaaaaaaaaaaaaaaaabbbbbbbbbbbbbbbbbbbbbbbbbbbbbbbbbbbbbbbbbbbbbbbbbbcdef''"] a
  have c: "params_state (getConsumeForkParameters example_fork_env
          ''#selector=sel&state=aaaaaaaaaaaaaaaaaaaaaaaaaaaaaaaaaaaaaaaaaaaaaaaaaabbbbbbbbbbbbbbbbbbbbbbbbbbbbbbbbbbbbbbbbbbbbbbbbbbcdef'')
     = take 100 ''aaaaaaaaaaaaaaaaaaaaaaaaaaaaaaaaaaaaaaaaaaaaaaaaaabbbbbbbbbbbbbbbbbbbbbbbbbbbbbbbbbbbbbbbbbbbbbbbbbbcdef''"
    by blast
  from getConsumeForkParameters_state_truncated [of example_fork_env "''#state=st''"] b
  have d: "params_selector (getConsumeForkParameters example_fork_env ''#state=st'') = []"
    by blast
  show ?thesis
    using a b c d by simp
qed




section \<open>Properties of \<open>requestFork\<close>\<close>

subsection \<open>The state: base64url of the random bytes\<close>

lemma getRandomValues_length: "length (fst (getRandomValues rng n w)) = n"
proof (induction n arbitrary: w)
  case 0
  show ?case by simp
next
  case (Suc n)
  obtain b w1 where r: "rng w = (b, w1)" by (cases "rng w")
  obtain bs w2 where g: "getRandomValues rng n w1 = (bs, w2)" by (cases "getRandomValues rng n w1")
  from Suc [of w1] g have "length bs = n" by simp
  with r g show ?case by simp
qed

lemma base64url_length: "length (base64url bs) = (4 * length bs + 2) div 3"
  by (induction bs rule: base64url.induct) auto

lemma length_base64url_alphabet: "length base64url_alphabet = 64"
  by (simp add: base64url_alphabet_def)

lemma base64url_digit_in_alphabet: "base64url_digit n \<in> set base64url_alphabet"
  by (simp add: base64url_digit_def length_base64url_alphabet)

lemma base64url_charset: "set (base64url bs) \<subseteq> set base64url_alphabet"
  by (induction bs rule: base64url.induct) (auto simp: base64url_digit_in_alphabet)

lemma takeWhile_neq_nth:
  "distinct xs \<Longrightarrow> i < length xs \<Longrightarrow> takeWhile (\<lambda>x. x \<noteq> xs ! i) xs = take i xs"
proof (induction xs arbitrary: i)
  case Nil
  then show ?case by simp
next
  case (Cons x xs)
  then show ?case by (cases i) auto
qed

lemma distinct_base64url_alphabet: "distinct base64url_alphabet"
  by (simp add: base64url_alphabet_def)

lemma small_mul_div: "(y::nat) < 16 \<Longrightarrow> (x * 16 + y) div 16 = x"
  by simp

lemma small_mul_mod: "(y::nat) < 16 \<Longrightarrow> (x * 16 + y) mod 16 = y"
  by simp

lemma small_mul_div4: "(y::nat) < 4 \<Longrightarrow> (x * 4 + y) div 4 = x"
  by simp

lemma small_mul_mod4: "(y::nat) < 4 \<Longrightarrow> (x * 4 + y) mod 4 = y"
  by simp

lemma sextets_back:
  fixes a b c :: nat
  assumes "a < 256" "b < 256" "c < 256"
  shows "(a div 4) mod 64 * 4 + ((a mod 4) * 16 + b div 16) mod 64 div 16 = a"
    and "((a mod 4) * 16 + b div 16) mod 64 mod 16 * 16 + ((b mod 16) * 4 + c div 64) mod 64 div 4 = b"
    and "((b mod 16) * 4 + c div 64) mod 64 mod 4 * 64 + (c mod 64) mod 64 = c"
    and "((a mod 4) * 16) mod 64 div 16 = a mod 4"
    and "((a mod 4) * 16 + b div 16) mod 64 mod 16 * 16 + ((b mod 16) * 4) mod 64 div 4 = b"
proof -
  have a4: "a div 4 < 64" and b16: "b div 16 < 16" and c64: "c div 64 < 4"
    using assms by simp_all
  have am: "a mod 4 < 4" and bm: "b mod 16 < 16" by simp_all
  have q: "(a mod 4) * 16 + b div 16 < 64" using am b16 by linarith
  have r: "(b mod 16) * 4 + c div 64 < 64" using bm c64 by linarith
  have r0: "(b mod 16) * 4 < 64" using bm by linarith
  have q0: "(a mod 4) * 16 < 64" using am by linarith
  show "(a div 4) mod 64 * 4 + ((a mod 4) * 16 + b div 16) mod 64 div 16 = a"
    using a4 q b16 by (simp add: small_mul_div)
  show "((a mod 4) * 16 + b div 16) mod 64 mod 16 * 16 + ((b mod 16) * 4 + c div 64) mod 64 div 4 = b"
    using q r b16 c64 by (simp add: small_mul_mod small_mul_div4)
  show "((b mod 16) * 4 + c div 64) mod 64 mod 4 * 64 + (c mod 64) mod 64 = c"
    using r c64 by (simp add: small_mul_mod4)
  show "((a mod 4) * 16) mod 64 div 16 = a mod 4"
    using q0 by simp
  show "((a mod 4) * 16 + b div 16) mod 64 mod 16 * 16 + ((b mod 16) * 4) mod 64 div 4 = b"
    using q r0 b16 by (simp add: small_mul_mod)
qed

lemma base64url_value_digit: "base64url_value (base64url_digit n) = Some (n mod 64)"
proof -
  have lt: "n mod 64 < length base64url_alphabet"
    by (simp add: length_base64url_alphabet)
  have "takeWhile (\<lambda>x. x \<noteq> base64url_alphabet ! (n mod 64)) base64url_alphabet
          = take (n mod 64) base64url_alphabet"
    by (rule takeWhile_neq_nth [OF distinct_base64url_alphabet lt])
  then show ?thesis
    using lt by (simp add: base64url_value_def base64url_digit_def)
qed

lemma decode_base64url:
  "\<forall>b\<in>set bs. b < 256 \<Longrightarrow>
   \<exists>vs. those_values (map base64url_value (base64url bs)) = Some vs \<and>
        base64url_decode_values vs = Some bs"
proof (induction bs rule: base64url.induct)
  case 1
  show ?case by simp
next
  case (2 a)
  then have a: "a < 256" by simp
  have "those_values (map base64url_value (base64url [a])) =
          Some [a div 4 mod 64, (a mod 4) * 16 mod 64]"
    by (simp only: base64url.simps list.map base64url_value_digit those_values.simps option.case)
  moreover have "base64url_decode_values [a div 4 mod 64, (a mod 4) * 16 mod 64] = Some [a]"
    using sextets_back(1) [OF a, of 0 0]
    by (simp only: base64url_decode_values.simps div_0 add_0_right)
  ultimately show ?case by blast
next
  case (3 a b)
  then have ab: "a < 256" "b < 256" by simp_all
  have "those_values (map base64url_value (base64url [a, b])) =
          Some [a div 4 mod 64, ((a mod 4) * 16 + b div 16) mod 64, (b mod 16) * 4 mod 64]"
    by (simp only: base64url.simps list.map base64url_value_digit those_values.simps option.case)
  moreover have "base64url_decode_values
       [a div 4 mod 64, ((a mod 4) * 16 + b div 16) mod 64, (b mod 16) * 4 mod 64] = Some [a, b]"
    by (simp only: base64url_decode_values.simps sextets_back(1,5) [OF ab, of 0])
  ultimately show ?case by blast
next
  case (4 a b c rest)
  then have abc: "a < 256" "b < 256" "c < 256" and rest: "\<forall>b\<in>set rest. b < 256"
    by simp_all
  from "4.IH" [OF rest] obtain vs where
    vs: "those_values (map base64url_value (base64url rest)) = Some vs"
        "base64url_decode_values vs = Some rest"
    by blast
  have "those_values (map base64url_value (base64url (a # b # c # rest))) =
          Some (a div 4 mod 64 # ((a mod 4) * 16 + b div 16) mod 64 #
                ((b mod 16) * 4 + c div 64) mod 64 # c mod 64 mod 64 # vs)"
    by (simp only: base64url.simps list.map map_append append.simps base64url_value_digit
          those_values.simps option.case vs(1))
  moreover have "base64url_decode_values
       (a div 4 mod 64 # ((a mod 4) * 16 + b div 16) mod 64 #
                ((b mod 16) * 4 + c div 64) mod 64 # c mod 64 mod 64 # vs) = Some (a # b # c # rest)"
    by (simp only: base64url_decode_values.simps sextets_back(1,2,3) [OF abc] vs(2) option.case)
  ultimately show ?case by blast
qed

lemma decodeBase64URL_bytes_base64url:
  "\<forall>b\<in>set bs. b < 256 \<Longrightarrow> decodeBase64URL_bytes (base64url bs) = Some bs"
  using decode_base64url [of bs] by (auto simp: decodeBase64URL_bytes_def)

lemma encodeBase64URL_uint8ArrayToString:
  "encodeBase64URL (uint8ArrayToString bs) = base64url (map unat bs)"
proof -
  have "of_char (char_of (unat b)) = unat b" for b :: "8 word"
    using unsigned_less [of b, where 'a = nat] by simp
  then show ?thesis
    by (simp add: encodeBase64URL_def uint8ArrayToString_def comp_def)
qed

subsection \<open>\<open>URLSearchParams\<close> parses what it serialises\<close>

lemma percent_decode_other:
  "c \<noteq> CHR ''%'' \<Longrightarrow> percent_decode (c # cs) = c # percent_decode cs"
proof (cases cs)
  case Nil
  then show ?thesis by simp
next
  case (Cons d ds)
  assume "c \<noteq> CHR ''%''"
  with Cons show ?thesis by (cases ds) simp_all
qed

lemma lt_16_cases:
  "k < (16::nat) \<Longrightarrow> k = 0 \<or> k = 1 \<or> k = 2 \<or> k = 3 \<or> k = 4 \<or> k = 5 \<or> k = 6 \<or> k = 7 \<or>
     k = 8 \<or> k = 9 \<or> k = 10 \<or> k = 11 \<or> k = 12 \<or> k = 13 \<or> k = 14 \<or> k = 15"
  by arith

lemma hex_value_hex_digit: "k < 16 \<Longrightarrow> hex_value (hex_digit k) = Some k"
  by (drule lt_16_cases) (auto simp: hex_value_def hex_digit_def)

lemma hex_digit_safe: "k < 16 \<Longrightarrow> urlencoded_safe (hex_digit k)"
  by (drule lt_16_cases) (auto simp: urlencoded_safe_def hex_digit_def)

lemma safe_not_special:
  "urlencoded_safe c \<Longrightarrow>
     c \<noteq> CHR ''%'' \<and> c \<noteq> CHR ''+'' \<and> c \<noteq> CHR ''&'' \<and> c \<noteq> CHR ''='' \<and> c \<noteq> CHR ''?'' \<and>
     c \<noteq> CHR ''#''"
  by (auto simp: urlencoded_safe_def)

lemma safe_ascii: "urlencoded_safe c \<Longrightarrow> of_char c < (128 :: nat)"
  by (auto simp: urlencoded_safe_def)

lemma percent_encode_chars:
  "c \<in> set (percent_encode s) \<Longrightarrow> urlencoded_safe c \<or> c = CHR ''+'' \<or> c = CHR ''%''"
proof (induction s)
  case Nil
  then show ?case by simp
next
  case (Cons x xs)
  have "of_char x div 16 < (16::nat)" "of_char x mod 16 < (16::nat)"
    using nat_of_char_less_256 [of x] by arith+
  with Cons show ?case
    by (auto simp: hex_digit_safe split: if_splits)
qed

lemma percent_encode_no_special:
  "CHR ''&'' \<notin> set (percent_encode s)" "CHR ''='' \<notin> set (percent_encode s)"
  "CHR ''?'' \<notin> set (percent_encode s)" "CHR ''#'' \<notin> set (percent_encode s)"
  using percent_encode_chars [of _ s] safe_not_special by fastforce+

lemma percent_encode_ascii: "c \<in> set (percent_encode s) \<Longrightarrow> of_char c < (128 :: nat)"
  using percent_encode_chars [of c s] safe_ascii [of c] by auto


lemma percent_decode_encode: "percent_decode (plus_to_space (percent_encode s)) = s"
proof (induction s)
  case Nil
  show ?case by (simp add: plus_to_space_def)
next
  case (Cons c cs)
  let ?rest = "plus_to_space (percent_encode cs)"
  have lt: "of_char c div 16 < (16::nat)" "of_char c mod 16 < (16::nat)"
    using nat_of_char_less_256 [of c] by arith+
  show ?case
  proof (cases "urlencoded_safe c")
    case True
    with safe_not_special [of c] Cons show ?thesis
      by (simp add: plus_to_space_def percent_decode_other)
  next
    case False
    show ?thesis
    proof (cases "c = CHR '' ''")
      case True
      with False Cons show ?thesis
        by (simp add: plus_to_space_def percent_decode_other)
    next
      case space: False
      have h: "hex_digit (of_char c div 16) \<noteq> CHR ''+''" "hex_digit (of_char c mod 16) \<noteq> CHR ''+''"
        using hex_digit_safe [OF lt(1)] hex_digit_safe [OF lt(2)] safe_not_special by blast+
      have enc: "plus_to_space (percent_encode (c # cs)) =
                   CHR ''%'' # hex_digit (of_char c div 16) # hex_digit (of_char c mod 16) # ?rest"
        using False space h by (simp add: plus_to_space_def)
      have recombine: "char_of (16 * (of_char c div 16) + of_char c mod 16 :: nat) = c"
        by (simp add: mult_div_mod_eq)
      have "percent_decode (plus_to_space (percent_encode (c # cs))) =
              percent_decode (CHR ''%'' # hex_digit (of_char c div 16) # hex_digit (of_char c mod 16) # ?rest)"
        by (simp only: enc)
      also have "\<dots> = char_of (16 * (of_char c div 16) + of_char c mod 16 :: nat) # percent_decode ?rest"
        by (simp add: hex_value_hex_digit [OF lt(1)] hex_value_hex_digit [OF lt(2)])
      also have "\<dots> = c # cs"
        by (simp only: recombine Cons)
      finally show ?thesis .
    qed
  qed
qed

lemma utf8_decode_ascii:
  "of_char b < (128 :: nat) \<Longrightarrow> utf8_decode (b # bs) = map_option (Cons b) (utf8_decode bs)"
  by (cases bs) simp_all

lemma utf8_decode_two:
  assumes "(128 :: nat) \<le> of_char c"
  shows "utf8_decode (utf8_encode_char c @ bs) = map_option (Cons c) (utf8_decode bs)"
proof -
  let ?n = "of_char c :: nat"
  have n: "?n < 256" by simp
  have hi: "?n div 64 = 2 \<or> ?n div 64 = 3"
    using assms n by arith
  have lead: "of_char (char_of (192 + ?n div 64)) = 192 + ?n div 64"
    using hi by auto
  have cont: "of_char (char_of (128 + ?n mod 64)) = 128 + ?n mod 64"
  proof -
    have "128 + ?n mod 64 < 256" by arith
    then show ?thesis by simp
  qed
  have val: "char_of ((192 + ?n div 64 - 192) * 64 + (128 + ?n mod 64 - 128)) = c"
    by (simp add: div_mult_mod_eq)
  have "utf8_decode (char_of (192 + ?n div 64) # char_of (128 + ?n mod 64) # bs) =
          map_option (Cons (char_of ((192 + ?n div 64 - 192) * 64 + (128 + ?n mod 64 - 128))))
            (utf8_decode bs)"
    using hi by (simp only: utf8_decode.simps lead cont) auto
  then show ?thesis
    using assms by (simp add: utf8_encode_char_def val del: utf8_decode.simps)
qed

lemma utf8_decode_encode: "utf8_decode (utf8_encode s) = Some s"
proof (induction s)
  case Nil
  show ?case by (simp add: utf8_encode_def)
next
  case (Cons c cs)
  show ?case
  proof (cases "of_char c < (128 :: nat)")
    case True
    then have "utf8_encode (c # cs) = c # utf8_encode cs"
      by (simp add: utf8_encode_def utf8_encode_char_def)
    with True Cons show ?thesis by (simp add: utf8_decode_ascii del: utf8_decode.simps)
  next
    case False
    then have ge: "(128 :: nat) \<le> of_char c" by simp
    have "utf8_encode (c # cs) = utf8_encode_char c @ utf8_encode cs"
      by (simp add: utf8_encode_def)
    with utf8_decode_two [OF ge, of "utf8_encode cs"] Cons show ?thesis by simp
  qed
qed

lemma utf8_encode_ascii: "\<forall>c\<in>set s. of_char c < (128 :: nat) \<Longrightarrow> utf8_encode s = s"
  by (induction s) (simp_all add: utf8_encode_def utf8_encode_char_def)

lemma split_on_no_sep: "c \<notin> set q \<Longrightarrow> split_on c q = [q]"
  by (induction q) auto

lemma split_on_append_sep:
  "c \<notin> set q \<Longrightarrow> split_on c (q @ c # rest) = q # split_on c rest"
  by (induction q) auto

lemma split_on_join_amp:
  "qs \<noteq> [] \<Longrightarrow> \<forall>q\<in>set qs. CHR ''&'' \<notin> set q \<Longrightarrow> split_on (CHR ''&'') (join_amp qs) = qs"
proof (induction qs rule: join_amp.induct)
  case 1
  then show ?case by simp
next
  case (2 q)
  then show ?case by (simp add: split_on_no_sep)
next
  case (3 q r rs)
  then show ?case by (simp add: split_on_append_sep)
qed

lemma urlencoded_parse_pair_encode: "urlencoded_parse_pair (encode_pair p) = Some p"
proof -
  let ?n = "percent_encode (utf8_encode (fst p))" and ?v = "percent_encode (utf8_encode (snd p))"
  have "takeWhile (\<lambda>c. c \<noteq> CHR ''='') (?n @ CHR ''='' # ?v) = ?n"
    using percent_encode_no_special(2) [of "utf8_encode (fst p)"] by (auto simp: takeWhile_tail)
  moreover have "dropWhile (\<lambda>c. c \<noteq> CHR ''='') (?n @ CHR ''='' # ?v) = CHR ''='' # ?v"
    using percent_encode_no_special(2) [of "utf8_encode (fst p)"] by (auto simp: dropWhile_append3)
  ultimately show ?thesis
    by (simp add: urlencoded_parse_pair_def encode_pair_def percent_decode_encode utf8_decode_encode)
qed

lemma encode_pair_props: "encode_pair p \<noteq> []" "CHR ''&'' \<notin> set (encode_pair p)"
  "CHR ''?'' \<notin> set (encode_pair p)" "CHR ''#'' \<notin> set (encode_pair p)"
  "\<forall>c\<in>set (encode_pair p). of_char c < (128 :: nat)"
  using percent_encode_no_special [of "utf8_encode (fst p)"]
    percent_encode_no_special [of "utf8_encode (snd p)"]
    percent_encode_ascii [of _ "utf8_encode (fst p)"] percent_encode_ascii [of _ "utf8_encode (snd p)"]
  by (auto simp: encode_pair_def)

lemma join_amp_hd: "qs \<noteq> [] \<Longrightarrow> hd qs \<noteq> [] \<Longrightarrow> hd (join_amp qs) = hd (hd qs) \<and> join_amp qs \<noteq> []"
  by (induction qs rule: join_amp.induct) auto

lemma join_amp_chars:
  "c \<in> set (join_amp qs) \<Longrightarrow> c = CHR ''&'' \<or> (\<exists>q\<in>set qs. c \<in> set q)"
  by (induction qs rule: join_amp.induct) auto

lemma URLSearchParams_toString_chars:
  "CHR ''#'' \<notin> set (URLSearchParams_toString ps)"
  "\<forall>c\<in>set (URLSearchParams_toString ps). of_char c < (128 :: nat)"
proof -
  show "CHR ''#'' \<notin> set (URLSearchParams_toString ps)"
    using join_amp_chars [of "CHR ''#''" "map encode_pair ps"] encode_pair_props(4)
    by (auto simp: URLSearchParams_toString_def)
  show "\<forall>c\<in>set (URLSearchParams_toString ps). of_char c < (128 :: nat)"
  proof
    fix c assume "c \<in> set (URLSearchParams_toString ps)"
    then have "c = CHR ''&'' \<or> (\<exists>q\<in>set (map encode_pair ps). c \<in> set q)"
      unfolding URLSearchParams_toString_def by (rule join_amp_chars)
    then show "of_char c < (128 :: nat)"
      using encode_pair_props(5) by auto
  qed
qed

lemma those_map_Some: "\<forall>x\<in>set xs. f (g x) = Some x \<Longrightarrow> those (map f (map g xs)) = Some xs"
  by (induction xs) simp_all

theorem URLSearchParams_parse_toString:
  "URLSearchParams_parse (URLSearchParams_toString ps) = Some ps"
proof (cases ps)
  case Nil
  then show ?thesis
    by (simp add: URLSearchParams_parse_def URLSearchParams_toString_def utf8_encode_def)
next
  case (Cons p rest)
  let ?qs = "map encode_pair ps"
  have ne: "?qs \<noteq> []" using Cons by simp
  have amp: "\<forall>q\<in>set ?qs. CHR ''&'' \<notin> set q" by (simp add: encode_pair_props)
  have nonempty: "filter (\<lambda>q. q \<noteq> []) ?qs = ?qs"
    by (simp add: filter_id_conv encode_pair_props)
  have hd_ne: "hd ?qs \<noteq> []" using Cons by (simp add: encode_pair_props)
  have "hd (hd ?qs) \<noteq> CHR ''?''"
    using encode_pair_props(1,3) [of p] Cons by (cases "encode_pair p") auto
  with join_amp_hd [OF ne hd_ne] have first: "join_amp ?qs \<noteq> []" "hd (join_amp ?qs) \<noteq> CHR ''?''"
    by simp_all
  then have strip: "(case join_amp ?qs of [] \<Rightarrow> [] | c # cs \<Rightarrow> if c = CHR ''?'' then cs else c # cs)
                      = join_amp ?qs"
    by (cases "join_amp ?qs") auto
  have ascii: "utf8_encode (join_amp ?qs) = join_amp ?qs"
    using URLSearchParams_toString_chars(2) [of ps]
    by (simp add: utf8_encode_ascii URLSearchParams_toString_def)
  have "URLSearchParams_parse (URLSearchParams_toString ps) =
          those (map urlencoded_parse_pair ?qs)"
    by (simp only: URLSearchParams_parse_def URLSearchParams_toString_def strip ascii
          split_on_join_amp [OF ne amp] nonempty)
  also have "\<dots> = Some ps"
    by (rule those_map_Some) (simp add: urlencoded_parse_pair_encode)
  finally show ?thesis .
qed

lemma url_query_append:
  assumes "CHR ''?'' \<notin> set base" "CHR ''#'' \<notin> set base" "CHR ''#'' \<notin> set q"
  shows "url_query (base @ ''?'' @ q) = q"
proof -
  have a: "takeWhile (\<lambda>c. c \<noteq> CHR ''#'') (base @ ''?'' @ q) = base @ ''?'' @ q"
    using assms(2,3) by (auto simp: takeWhile_eq_all_conv)
  have b: "dropWhile (\<lambda>c. c \<noteq> CHR ''?'') (base @ ''?'' @ q) = ''?'' @ q"
    using assms(1) by (auto simp: dropWhile_append3)
  show ?thesis
    unfolding url_query_def a b by simp
qed

subsection \<open>The result of \<open>requestFork\<close>\<close>

lemma requestFork_unfold:
  "requestFork env options w =
     (\<lparr>result_state = base64url (map unat (requestFork_bytes env w)),
       result_url = requestFork_base env options @ ''?'' @
         URLSearchParams_toString
           (requestFork_searchParams env options (base64url (map unat (requestFork_bytes env w))))\<rparr>,
      snd (getRandomValues (fork_rng env) 32 w))"
  by (simp add: requestFork_def Let_def encodeBase64URL_uint8ArrayToString split: prod.splits)

lemma requestFork_searchParams_get:
  "get (requestFork_searchParams env options st) ''app'' = Some (opt_app options)"
  "get (requestFork_searchParams env options st) ''state'' = Some st"
  "get (requestFork_searchParams env options st) ''independent'' = Some ''0''"
  "get (requestFork_searchParams env options st) ''u'' =
     map_option (Number_toString env) (opt_localID options)"
  "get (requestFork_searchParams env options st) ''t'' =
     (case opt_type options of None \<Rightarrow> None
      | Some t \<Rightarrow> if FORK_TYPE_value env t \<noteq> [] then Some (FORK_TYPE_value env t) else None)"
  by (simp_all add: requestFork_searchParams_def get_def split: option.splits)

lemma requestFork_searchParams_names:
  "map fst (requestFork_searchParams env options st) =
     [''app'', ''state'', ''independent''] @
     (case opt_localID options of None \<Rightarrow> [] | Some n \<Rightarrow> [''u'']) @
     (case opt_type options of None \<Rightarrow> []
      | Some t \<Rightarrow> if FORK_TYPE_value env t \<noteq> [] then [''t''] else [])"
  by (simp add: requestFork_searchParams_def split: option.splits)

lemma base64url_no_unsafe:
  "CHR ''='' \<notin> set base64url_alphabet" "CHR ''+'' \<notin> set base64url_alphabet"
  "CHR ''/'' \<notin> set base64url_alphabet"
  by (simp_all add: base64url_alphabet_def)

text \<open>
  Claim C6, as amended. \<open>requestFork\<close> draws 32 bytes from the random source and nothing
  else; the state it returns is their URL-safe base64 encoding: 43 characters of the URL-safe
  alphabet, none of them \<open>=\<close>, \<open>+\<close> or \<open>/\<close>, which decode to the 32 bytes. The URL is
  the host (the account origin when none is given), the authorize path, \<open>?\<close> and the
  serialised pairs, which parse back to themselves. The pairs are \<open>app\<close>, \<open>state\<close> and
  \<open>independent = 0\<close>, then \<open>u\<close>, the number as the platform writes it, exactly when a
  \<open>localID\<close> is given, then \<open>t\<close> exactly when a type is given whose string is not empty
  (as that of every member of the string enum \<^verbatim>\<open>FORK_TYPE\<close> is taken to be), and no
  other. When neither the host nor the authorize path has a \<open>?\<close> or a \<open>#\<close>, the query
  string of the URL is the serialised pairs, and parsing it gives the pairs back.
\<close>

theorem requestFork_result:
  "length (requestFork_bytes env w) = 32 \<and>
   snd (requestFork env options w) = snd (getRandomValues (fork_rng env) 32 w) \<and>
   requestFork_state env options w = encodeBase64URL (uint8ArrayToString (requestFork_bytes env w)) \<and>
   requestFork_state env options w = base64url (map unat (requestFork_bytes env w)) \<and>
   length (requestFork_state env options w) = 43 \<and>
   set (requestFork_state env options w) \<subseteq> set base64url_alphabet \<and>
   CHR ''='' \<notin> set (requestFork_state env options w) \<and>
   CHR ''+'' \<notin> set (requestFork_state env options w) \<and>
   CHR ''/'' \<notin> set (requestFork_state env options w) \<and>
   decodeBase64URL_bytes (requestFork_state env options w) = Some (map unat (requestFork_bytes env w)) \<and>
   result_url (fst (requestFork env options w)) =
     requestFork_base env options @ ''?'' @ URLSearchParams_toString (requestFork_params env options w) \<and>
   URLSearchParams_parse (URLSearchParams_toString (requestFork_params env options w))
     = Some (requestFork_params env options w) \<and>
   map fst (requestFork_params env options w) =
     [''app'', ''state'', ''independent''] @
     (case opt_localID options of None \<Rightarrow> [] | Some n \<Rightarrow> [''u'']) @
     (case opt_type options of None \<Rightarrow> []
      | Some t \<Rightarrow> if FORK_TYPE_value env t \<noteq> [] then [''t''] else []) \<and>
   get (requestFork_params env options w) ''app'' = Some (opt_app options) \<and>
   get (requestFork_params env options w) ''state'' = Some (requestFork_state env options w) \<and>
   get (requestFork_params env options w) ''independent'' = Some ''0'' \<and>
   get (requestFork_params env options w) ''u'' = map_option (Number_toString env) (opt_localID options) \<and>
   ((\<forall>t. opt_type options = Some t \<longrightarrow> FORK_TYPE_value env t \<noteq> []) \<longrightarrow>
      get (requestFork_params env options w) ''t'' = map_option (FORK_TYPE_value env) (opt_type options)) \<and>
   (CHR ''?'' \<notin> set (requestFork_base env options) \<and> CHR ''#'' \<notin> set (requestFork_base env options) \<longrightarrow>
      url_query (result_url (fst (requestFork env options w)))
        = URLSearchParams_toString (requestFork_params env options w) \<and>
      URLSearchParams_parse (url_query (result_url (fst (requestFork env options w))))
        = Some (requestFork_params env options w))"
proof -
  let ?bytes = "requestFork_bytes env w"
  let ?st = "requestFork_state env options w"
  let ?ps = "requestFork_params env options w"
  let ?url = "result_url (fst (requestFork env options w))"
  have len: "length ?bytes = 32"
    by (rule getRandomValues_length)
  have wd: "snd (requestFork env options w) = snd (getRandomValues (fork_rng env) 32 w)"
    by (simp add: requestFork_unfold)
  have st: "?st = base64url (map unat ?bytes)"
    by (simp add: requestFork_unfold)
  have st': "?st = encodeBase64URL (uint8ArrayToString ?bytes)"
    by (simp add: st encodeBase64URL_uint8ArrayToString)
  have l43: "length ?st = 43"
    by (simp add: st base64url_length len)
  have cs: "set ?st \<subseteq> set base64url_alphabet"
    unfolding st by (rule base64url_charset)
  have unsafe: "CHR ''='' \<notin> set ?st" "CHR ''+'' \<notin> set ?st" "CHR ''/'' \<notin> set ?st"
    using cs base64url_no_unsafe by blast+
  have bytes: "\<forall>b\<in>set (map unat ?bytes). b < 256"
  proof
    fix b assume "b \<in> set (map unat ?bytes)"
    then obtain x :: "8 word" where "b = unat x" by auto
    then show "b < 256" using unsigned_less [of x, where 'a = nat] by simp
  qed
  have dec: "decodeBase64URL_bytes ?st = Some (map unat ?bytes)"
    unfolding st by (rule decodeBase64URL_bytes_base64url [OF bytes])
  have u: "?url = requestFork_base env options @ ''?'' @ URLSearchParams_toString ?ps"
    by (simp add: requestFork_unfold)
  have rt: "URLSearchParams_parse (URLSearchParams_toString ?ps) = Some ?ps"
    by (rule URLSearchParams_parse_toString)
  have names: "map fst ?ps =
     [''app'', ''state'', ''independent''] @
     (case opt_localID options of None \<Rightarrow> [] | Some n \<Rightarrow> [''u'']) @
     (case opt_type options of None \<Rightarrow> []
      | Some t \<Rightarrow> if FORK_TYPE_value env t \<noteq> [] then [''t''] else [])"
    by (rule requestFork_searchParams_names)
  have g: "get ?ps ''app'' = Some (opt_app options)" "get ?ps ''state'' = Some ?st"
    "get ?ps ''independent'' = Some ''0''"
    "get ?ps ''u'' = map_option (Number_toString env) (opt_localID options)"
    by (rule requestFork_searchParams_get)+
  have t: "(\<forall>t. opt_type options = Some t \<longrightarrow> FORK_TYPE_value env t \<noteq> []) \<longrightarrow>
      get ?ps ''t'' = map_option (FORK_TYPE_value env) (opt_type options)"
    by (cases "opt_type options") (simp_all add: requestFork_searchParams_get(5))
  have q: "CHR ''?'' \<notin> set (requestFork_base env options) \<and>
           CHR ''#'' \<notin> set (requestFork_base env options) \<longrightarrow>
      url_query ?url = URLSearchParams_toString ?ps \<and>
      URLSearchParams_parse (url_query ?url) = Some ?ps"
  proof
    assume a: "CHR ''?'' \<notin> set (requestFork_base env options) \<and>
               CHR ''#'' \<notin> set (requestFork_base env options)"
    have "url_query (requestFork_base env options @ ''?'' @ URLSearchParams_toString ?ps)
            = URLSearchParams_toString ?ps"
      using a URLSearchParams_toString_chars(1) [of ?ps] by (intro url_query_append) simp_all
    then have "url_query ?url = URLSearchParams_toString ?ps"
      by (simp only: u)
    then show "url_query ?url = URLSearchParams_toString ?ps \<and>
               URLSearchParams_parse (url_query ?url) = Some ?ps"
      using rt by simp
  qed
  from len wd st' st l43 cs unsafe dec u rt names g t q show ?thesis
    by (intro conjI)
qed

text \<open>
  Claim C6 as stated is for every host. With a host that has a query of its own, the
  query string of the URL begins in the host, and parsing it gives no \<open>app\<close>.
\<close>

theorem requestFork_query_host_counterexample:
  "opt_app example_request_query_host = ''proton-pass'' \<and>
   opt_host example_request_query_host = Some ''https://a.example/?x=1'' \<and>
   result_url (fst (requestFork example_fork_env example_request_query_host 0)) =
     ''https://a.example/?x=1/authorize?app=proton-pass&state=AwoRGB8mLTQ7QklQV15lbHN6gYiPlp2kq7K5wMfO1dw&independent=0&u=0&t=1'' \<and>
   URLSearchParams_parse
     (url_query (result_url (fst (requestFork example_fork_env example_request_query_host 0)))) =
     Some [(''x'', ''1/authorize?app=proton-pass''),
           (''state'', ''AwoRGB8mLTQ7QklQV15lbHN6gYiPlp2kq7K5wMfO1dw''),
           (''independent'', ''0''), (''u'', ''0''), (''t'', ''1'')] \<and>
   get [(''x'', ''1/authorize?app=proton-pass''),
        (''state'', ''AwoRGB8mLTQ7QklQV15lbHN6gYiPlp2kq7K5wMfO1dw''),
        (''independent'', ''0''), (''u'', ''0''), (''t'', ''1'')] ''app'' = None"
  by code_simp

theorem requestFork_result_witness:
  "CHR ''?'' \<notin> set (requestFork_base example_fork_env example_request) \<and>
   CHR ''#'' \<notin> set (requestFork_base example_fork_env example_request) \<and>
   opt_type example_request = Some ''1'' \<and> FORK_TYPE_value example_fork_env ''1'' \<noteq> [] \<and>
   requestFork example_fork_env example_request 0 =
     (\<lparr>result_state = ''AwoRGB8mLTQ7QklQV15lbHN6gYiPlp2kq7K5wMfO1dw'',
       result_url = ''https://account.example/authorize?app=proton-pass&state=AwoRGB8mLTQ7QklQV15lbHN6gYiPlp2kq7K5wMfO1dw&independent=0&u=0&t=1''\<rparr>,
      32) \<and>
   length (requestFork_state example_fork_env example_request 0) = 43 \<and>
   decodeBase64URL_bytes (requestFork_state example_fork_env example_request 0)
     = Some (map unat (requestFork_bytes example_fork_env 0)) \<and>
   URLSearchParams_parse (url_query (result_url (fst (requestFork example_fork_env example_request 0))))
     = Some (requestFork_params example_fork_env example_request 0) \<and>
   get (requestFork_params example_fork_env example_request 0) ''u'' = Some ''0'' \<and>
   get (requestFork_params example_fork_env example_request 0) ''t'' = Some ''1''"
proof -
  have base: "CHR ''?'' \<notin> set (requestFork_base example_fork_env example_request) \<and>
              CHR ''#'' \<notin> set (requestFork_base example_fork_env example_request)"
    by (simp add: example_fork_env_def example_request_def)
  have ft: "\<forall>t. opt_type example_request = Some t \<longrightarrow> FORK_TYPE_value example_fork_env t \<noteq> []"
    by (auto simp: example_request_def example_fork_env_def)
  have opt: "opt_type example_request = Some ''1''" "FORK_TYPE_value example_fork_env ''1'' \<noteq> []"
    by (simp_all add: example_request_def example_fork_env_def)
  have run: "requestFork example_fork_env example_request 0 =
     (\<lparr>result_state = ''AwoRGB8mLTQ7QklQV15lbHN6gYiPlp2kq7K5wMfO1dw'',
       result_url = ''https://account.example/authorize?app=proton-pass&state=AwoRGB8mLTQ7QklQV15lbHN6gYiPlp2kq7K5wMfO1dw&independent=0&u=0&t=1''\<rparr>,
      32)"
    by code_simp
  have num: "map_option (Number_toString example_fork_env) (opt_localID example_request) = Some ''0''"
    by code_simp
  have ftype: "map_option (FORK_TYPE_value example_fork_env) (opt_type example_request) = Some ''1''"
    by (simp add: example_request_def example_fork_env_def)
  note r = requestFork_result [where env = example_fork_env and options = example_request and w = 0]
  from r have a: "length (requestFork_state example_fork_env example_request 0) = 43"
    by (elim conjE)
  from r have b: "decodeBase64URL_bytes (requestFork_state example_fork_env example_request 0)
     = Some (map unat (requestFork_bytes example_fork_env 0))"
    by (elim conjE)
  from r base have c: "URLSearchParams_parse
       (url_query (result_url (fst (requestFork example_fork_env example_request 0))))
     = Some (requestFork_params example_fork_env example_request 0)"
    by (elim conjE) blast
  from r have "get (requestFork_params example_fork_env example_request 0) ''u''
      = map_option (Number_toString example_fork_env) (opt_localID example_request)"
    by (elim conjE)
  then have d: "get (requestFork_params example_fork_env example_request 0) ''u'' = Some ''0''"
    by (simp only: num)
  from r ft have "get (requestFork_params example_fork_env example_request 0) ''t''
      = map_option (FORK_TYPE_value example_fork_env) (opt_type example_request)"
    by (elim conjE) blast
  then have e: "get (requestFork_params example_fork_env example_request 0) ''t'' = Some ''1''"
    by (simp only: ftype)
  from base opt run a b c d e show ?thesis
    by (intro conjI) (elim conjE, assumption)+
qed

end
